theory Spec2Isabelle
  imports Complex_Main "HOL-Library.AList" "HOL-Library.Multiset" "HOL-Library.Sublist"
    "HOL-Library.Product_Lexorder"
begin

chapter \<open>Conversation reconciliation of cursor-chat-browser\<close>

text \<open>
  The development embeds the conversation-reconciliation code that the export route
  (\<^verbatim>\<open>fetchConversationsForWorkspace\<close>) and the tabs route (\<^verbatim>\<open>GET\<close>) share:
  \<^verbatim>\<open>safeParseTimestamp\<close>, \<^verbatim>\<open>createBubble\<close>, the three ingestion passes (legacy chat tabs,
  composer bodies, global bubble scan) and the consolidation (deduplication, header-order
  sort, final sort). Both routes contain the same text for these parts; they differ in the
  wrapper around them, which is modelled once per route.
\<close>

section \<open>JavaScript values\<close>

text \<open>
  Numbers are IEEE doubles in the program. The model keeps finite numbers as rationals (every
  double is one) and multiplies exactly; for integral inputs below \<open>2^53\<close> that is what the
  program computes. Strings are lists of 8-bit characters.
\<close>

datatype jsnum = Fin rat | NaN | PosInf | NegInf

datatype jsval =
    JUndefined
  | JNull
  | JBool bool
  | JNumber jsnum
  | JString string
  | JDate "int option"  \<comment> \<open>a Date object: its time value in ms, \<open>None\<close> for an invalid Date\<close>
  | JObject             \<comment> \<open>any other object or array\<close>

datatype exn = RangeError | SyntaxError | TypeError | IOError

definition truthy :: "jsval \<Rightarrow> bool" where
  "truthy v = (case v of
      JUndefined \<Rightarrow> False
    | JNull \<Rightarrow> False
    | JBool b \<Rightarrow> b
    | JNumber x \<Rightarrow> (case x of Fin r \<Rightarrow> r \<noteq> 0 | NaN \<Rightarrow> False | PosInf \<Rightarrow> True | NegInf \<Rightarrow> True)
    | JString s \<Rightarrow> s \<noteq> []
    | JDate tv \<Rightarrow> True
    | JObject \<Rightarrow> True)"

definition jsOr :: "jsval \<Rightarrow> jsval \<Rightarrow> jsval" where
  \<comment> \<open>\<^verbatim>\<open>a || b\<close>\<close>
  "jsOr a b = (if truthy a then a else b)"

definition truthyS :: "string option \<Rightarrow> bool" where
  \<comment> \<open>truthiness of an optional string field: present and not empty\<close>
  "truthyS a = (case a of None \<Rightarrow> False | Some s \<Rightarrow> s \<noteq> [])"

definition orS :: "string option \<Rightarrow> string option \<Rightarrow> string option" where
  \<comment> \<open>\<^verbatim>\<open>a || b\<close> on optional strings\<close>
  "orS a b = (if truthyS a then a else b)"

definition orEmpty :: "string option \<Rightarrow> string" where
  \<comment> \<open>\<^verbatim>\<open>a || ""\<close>\<close>
  "orEmpty a = (case a of None \<Rightarrow> [] | Some s \<Rightarrow> s)"

definition isJsSpace :: "char \<Rightarrow> bool" where
  \<comment> \<open>the white space and line terminators of \<^verbatim>\<open>String.prototype.trim\<close> among 8-bit characters\<close>
  "isJsSpace c \<longleftrightarrow> c \<in> set [CHR 0x09, CHR 0x0A, CHR 0x0B, CHR 0x0C, CHR 0x0D, CHR 0x20, CHR 0xA0]"

definition trim :: "string \<Rightarrow> string" where
  "trim s = rev (dropWhile isJsSpace (rev (dropWhile isJsSpace s)))"

fun splitOn :: "char \<Rightarrow> string \<Rightarrow> string list" where
  \<comment> \<open>\<^verbatim>\<open>s.split(c)\<close> for a one-character separator\<close>
  "splitOn c [] = [[]]"
| "splitOn c (x # xs) =
     (if x = c then [] # splitOn c xs
      else (case splitOn c xs of [] \<Rightarrow> [[x]] | p # ps \<Rightarrow> (x # p) # ps))"

definition nthOpt :: "'a list \<Rightarrow> nat \<Rightarrow> 'a option" where
  \<comment> \<open>\<^verbatim>\<open>xs[i]\<close>, \<^verbatim>\<open>undefined\<close> out of range\<close>
  "nthOpt xs i = (if i < length xs then Some (xs ! i) else None)"

fun findIndex :: "('a \<Rightarrow> bool) \<Rightarrow> 'a list \<Rightarrow> int" where
  \<comment> \<open>\<^verbatim>\<open>Array.prototype.findIndex\<close>: the first index whose element satisfies \<open>P\<close>, else \<open>-1\<close>\<close>
  "findIndex P [] = - 1"
| "findIndex P (x # xs) =
     (if P x then 0 else (if findIndex P xs < 0 then - 1 else findIndex P xs + 1))"

fun insertBy :: "('a \<Rightarrow> 'a \<Rightarrow> int) \<Rightarrow> 'a \<Rightarrow> 'a list \<Rightarrow> 'a list" where
  "insertBy cmp x [] = [x]"
| "insertBy cmp x (y # ys) = (if cmp x y \<le> 0 then x # y # ys else y # insertBy cmp x ys)"

definition jsSort :: "('a \<Rightarrow> 'a \<Rightarrow> int) \<Rightarrow> 'a list \<Rightarrow> 'a list" where
  \<comment> \<open>\<^verbatim>\<open>Array.prototype.sort(cmp)\<close>, which is stable: an element is placed before the first
      later element it does not compare greater than. Every stable sort gives this list when
      \<open>cmp\<close> is a consistent comparison.\<close>
  "jsSort cmp xs = foldr (insertBy cmp) xs []"

section \<open>Dates\<close>

text \<open>
  \<^verbatim>\<open>Date.prototype.toISOString\<close> on a time value \<open>t\<close> (milliseconds since the epoch, UTC):
  the day number is split into 400-year eras, centuries, 4-year cycles and years, counted
  from 1 March of year 0, so that the leap day is the last day of a year.
\<close>

definition maxTime :: int where
  "maxTime = 8640000000000000"

definition validTime :: "int \<Rightarrow> bool" where
  \<comment> \<open>the range of time values of ECMAScript\<close>
  "validTime t \<longleftrightarrow> - maxTime \<le> t \<and> t \<le> maxTime"

definition monthDay :: "int \<Rightarrow> int \<Rightarrow> int \<times> int" where
  "monthDay doy mp = (if mp < 10 then mp + 3 else mp - 9, doy - (153 * mp + 2) div 5 + 1)"

definition civilOfYearDay :: "int \<Rightarrow> int \<Rightarrow> int \<times> int \<times> int" where
  "civilOfYearDay y doy =
     (case monthDay doy ((5 * doy + 2) div 153) of (m, d) \<Rightarrow> (if m \<le> 2 then y + 1 else y, m, d))"

definition civilOfFour :: "int \<Rightarrow> int \<Rightarrow> int \<Rightarrow> int \<times> int \<times> int" where
  "civilOfFour y n1 d3 = civilOfYearDay (y + n1) (d3 - n1 * 365)"

definition civilOfCycle :: "int \<Rightarrow> int \<Rightarrow> int \<Rightarrow> int \<times> int \<times> int" where
  "civilOfCycle y n4 d3 = civilOfFour (y + 4 * n4) (min 3 (d3 div 365)) d3"

definition civilOfCentury :: "int \<Rightarrow> int \<Rightarrow> int \<Rightarrow> int \<times> int \<times> int" where
  "civilOfCentury y n100 d1 =
     civilOfCycle (y + 100 * n100) ((d1 - n100 * 36524) div 1461) ((d1 - n100 * 36524) mod 1461)"

definition civilOfEra :: "int \<Rightarrow> int \<Rightarrow> int \<times> int \<times> int" where
  "civilOfEra n400 d1 = civilOfCentury (400 * n400) (min 3 (d1 div 36524)) d1"

definition civilFromDays :: "int \<Rightarrow> int \<times> int \<times> int" where
  \<comment> \<open>year, month (1..12) and day of month of a day number (days since 1970-01-01)\<close>
  "civilFromDays days = civilOfEra ((days + 719468) div 146097) ((days + 719468) mod 146097)"

definition daysOfMarchYear :: "int \<Rightarrow> int \<Rightarrow> int" where
  "daysOfMarchYear y doy = 365 * y + y div 4 - y div 100 + y div 400 + doy - 719468"

definition daysFromCivil :: "int \<Rightarrow> int \<Rightarrow> int \<Rightarrow> int" where
  "daysFromCivil year m d =
     daysOfMarchYear (if m \<le> 2 then year - 1 else year)
       ((153 * (if m > 2 then m - 3 else m + 9) + 2) div 5 + d - 1)"

definition digit :: "nat \<Rightarrow> char" where
  "digit n = ''0123456789'' ! (n mod 10)"

definition digitVal :: "char \<Rightarrow> nat" where
  "digitVal c = length (takeWhile (\<lambda>d. d \<noteq> c) ''0123456789'')"

definition pad2 :: "nat \<Rightarrow> string" where
  "pad2 n = [digit (n div 10), digit n]"

definition pad3 :: "nat \<Rightarrow> string" where
  "pad3 n = [digit (n div 100), digit (n div 10), digit n]"

definition pad4 :: "nat \<Rightarrow> string" where
  "pad4 n = [digit (n div 1000), digit (n div 100), digit (n div 10), digit n]"

definition pad6 :: "nat \<Rightarrow> string" where
  "pad6 n = [digit (n div 100000), digit (n div 10000), digit (n div 1000), digit (n div 100),
             digit (n div 10), digit n]"

definition numVal :: "string \<Rightarrow> nat" where
  "numVal s = foldl (\<lambda>a c. 10 * a + digitVal c) 0 s"

definition yearString :: "int \<Rightarrow> string" where
  \<comment> \<open>four digits for the years 0 to 9999, else a sign and six digits\<close>
  "yearString y = (if 0 \<le> y \<and> y \<le> 9999 then pad4 (nat y)
                   else (if y < 0 then CHR ''-'' else CHR ''+'') # pad6 (nat \<bar>y\<bar>))"

definition formatFields :: "int \<times> int \<times> int \<Rightarrow> int \<Rightarrow> string" where
  "formatFields ymd ms =
    (case ymd of (y, m, d) \<Rightarrow>
       yearString y @ ''-'' @ pad2 (nat m) @ ''-'' @ pad2 (nat d) @ ''T'' @
       pad2 (nat (ms div 3600000)) @ '':'' @ pad2 (nat (ms div 60000 mod 60)) @ '':'' @
       pad2 (nat (ms div 1000 mod 60)) @ ''.'' @ pad3 (nat (ms mod 1000)) @ ''Z'')"

definition formatISO :: "int \<Rightarrow> string" where
  \<comment> \<open>the text \<^verbatim>\<open>toISOString\<close> gives for a valid time value\<close>
  "formatISO t = formatFields (civilFromDays (t div 86400000)) (t mod 86400000)"

definition timeFromFields :: "int \<Rightarrow> string \<Rightarrow> int" where
  "timeFromFields y r =
     daysFromCivil y (int (numVal (take 2 (drop 1 r)))) (int (numVal (take 2 (drop 4 r)))) * 86400000
     + int (numVal (take 2 (drop 7 r))) * 3600000
     + int (numVal (take 2 (drop 10 r))) * 60000
     + int (numVal (take 2 (drop 13 r))) * 1000
     + int (numVal (take 3 (drop 16 r)))"

definition isoCandidate :: "string \<Rightarrow> int" where
  \<comment> \<open>the time value read off the digit positions of an ISO date-time string\<close>
  "isoCandidate s =
     (case s of [] \<Rightarrow> 0
      | c # r \<Rightarrow>
          if c = CHR ''+'' then timeFromFields (int (numVal (take 6 r))) (drop 6 r)
          else if c = CHR ''-'' then timeFromFields (- int (numVal (take 6 r))) (drop 6 r)
          else timeFromFields (int (numVal (take 4 s))) (drop 4 s))"

definition parseISO :: "string \<Rightarrow> int option" where
  \<comment> \<open>\<^verbatim>\<open>Date.parse\<close> on the strings that \<^verbatim>\<open>toISOString\<close> produces: the string is accepted when
      it is the ISO text of the instant read off its digits\<close>
  "parseISO s = (if validTime (isoCandidate s) \<and> formatISO (isoCandidate s) = s
                 then Some (isoCandidate s) else None)"

definition isoInstant :: "string \<Rightarrow> bool" where
  \<comment> \<open>a well-formed instant: the ISO-8601 text of a valid time value\<close>
  "isoInstant s \<longleftrightarrow> parseISO s \<noteq> None"

definition dateParse :: "(string \<Rightarrow> int option) \<Rightarrow> string \<Rightarrow> int option" where
  \<comment> \<open>the time value of \<^verbatim>\<open>new Date(s)\<close> for a string, \<open>None\<close> for an invalid Date. What
      \<^verbatim>\<open>Date.parse\<close> does with a string that is not in the format of \<^verbatim>\<open>toISOString\<close>
      depends on the implementation: it is the parameter \<open>lp\<close>.\<close>
  "dateParse lp s =
     (case parseISO s of
        Some t \<Rightarrow> Some t
      | None \<Rightarrow> (case lp s of None \<Rightarrow> None | Some t \<Rightarrow> if validTime t then Some t else None))"

definition truncateRat :: "rat \<Rightarrow> int" where
  "truncateRat r = (if 0 \<le> r then \<lfloor>r\<rfloor> else \<lceil>r\<rceil>)"

definition timeClip :: "jsnum \<Rightarrow> int option" where
  \<comment> \<open>the time value of \<^verbatim>\<open>new Date(x)\<close> for a number\<close>
  "timeClip x = (case x of
       Fin r \<Rightarrow> if \<bar>r\<bar> > 8640000000000000 then None else Some (truncateRat r)
     | NaN \<Rightarrow> None | PosInf \<Rightarrow> None | NegInf \<Rightarrow> None)"

definition toISOString :: "int option \<Rightarrow> exn + string" where
  \<comment> \<open>\<^verbatim>\<open>toISOString\<close> throws a RangeError on an invalid Date\<close>
  "toISOString tv =
     (case tv of None \<Rightarrow> Inl RangeError
      | Some t \<Rightarrow> if validTime t then Inr (formatISO t) else Inl RangeError)"

definition numGreater :: "jsnum \<Rightarrow> rat \<Rightarrow> bool" where
  "numGreater x c = (case x of Fin r \<Rightarrow> r > c | NaN \<Rightarrow> False | PosInf \<Rightarrow> True | NegInf \<Rightarrow> False)"

definition numTimes :: "jsnum \<Rightarrow> rat \<Rightarrow> jsnum" where
  \<comment> \<open>multiplication by a positive constant\<close>
  "numTimes x c = (case x of Fin r \<Rightarrow> Fin (r * c) | NaN \<Rightarrow> NaN | PosInf \<Rightarrow> PosInf | NegInf \<Rightarrow> NegInf)"

section \<open>The timestamp normalizer\<close>

text \<open>
  \<open>now\<close> is the reading of the clock at the call (\<^verbatim>\<open>new Date()\<close>, always a valid time
  value); \<open>lp\<close> is the implementation's \<^verbatim>\<open>Date.parse\<close> on other strings.
\<close>

definition safeParseTimestampTry :: "int \<Rightarrow> (string \<Rightarrow> int option) \<Rightarrow> jsval \<Rightarrow> exn + string" where
  \<comment> \<open>the \<^verbatim>\<open>try\<close> block of \<^verbatim>\<open>safeParseTimestamp\<close>\<close>
  "safeParseTimestampTry now lp timestamp =
     (case timestamp of
        JNull \<Rightarrow> Inr (formatISO now)
      | JUndefined \<Rightarrow> Inr (formatISO now)
      | JDate tv \<Rightarrow> toISOString tv
      | JString s \<Rightarrow>
          (case dateParse lp s of
             Some t \<Rightarrow> toISOString (Some t)
           | None \<Rightarrow> Inr (formatISO now))
      | JNumber x \<Rightarrow>
          toISOString (timeClip (if numGreater x 100000000000 then x else numTimes x 1000))
      | JBool b \<Rightarrow> Inr (formatISO now)
      | JObject \<Rightarrow> Inr (formatISO now))"

definition safeParseTimestamp :: "int \<Rightarrow> (string \<Rightarrow> int option) \<Rightarrow> jsval \<Rightarrow> string" where
  \<comment> \<open>the \<^verbatim>\<open>catch\<close> block logs and returns \<^verbatim>\<open>new Date().toISOString()\<close>\<close>
  "safeParseTimestamp now lp timestamp =
     (case safeParseTimestampTry now lp timestamp of
        Inr s \<Rightarrow> s
      | Inl e \<Rightarrow> formatISO now)"

section \<open>Records of the sources and of the result\<close>

text \<open>
  The interfaces of the program, with optional fields as options and fields of a union type
  as \<^typ>\<open>jsval\<close>. Several interfaces use the field names \<^verbatim>\<open>id\<close>, \<^verbatim>\<open>name\<close>,
  \<^verbatim>\<open>createdAt\<close>, \<^verbatim>\<open>lastUpdatedAt\<close>; they carry a prefix here where they would collide.
\<close>

datatype role = User | Assistant

record ChatBubble =
  role :: role
  content :: string
  bid :: "string option"              \<comment> \<open>\<^verbatim>\<open>id\<close>\<close>
  originalType :: jsval
  originalSource :: "string option"

record RawBubble =
  rawRole :: "string option"
  rawType :: jsval
  rawContent :: "string option"
  rawText :: "string option"
  rawId :: "string option"
  rawBubbleId :: "string option"

record RawTab =
  tabId :: string
  chatTitle :: "string option"
  lastSendTime :: jsval
  tabBubbles :: "RawBubble list option"

record ChatData =
  tabs :: "RawTab list option"

record ComposerMessage =
  msgRole :: "string option"
  msgType :: jsval
  msgContent :: "string option"
  msgText :: "string option"
  msgId :: "string option"

record ComposerInstance =
  composerId :: string
  name :: "string option"
  createdAt :: jsval
  lastUpdatedAt :: jsval
  messages :: "ComposerMessage list option"
  conversation :: "ComposerMessage list option"
  fullConversationHeadersOnly :: "string list option"
    \<comment> \<open>the \<^verbatim>\<open>bubbleId\<close> of each header, the only field of a header that is read\<close>
  latestConversationSummary :: "string option"
    \<comment> \<open>\<^verbatim>\<open>latestConversationSummary?.summary?.summary\<close>\<close>

record ComposerMeta =
  metaComposerId :: string
  metaName :: "string option"
  metaCreatedAt :: jsval
  metaLastUpdatedAt :: jsval

record ComposerMetadata =
  allComposers :: "ComposerMeta list"

record BubbleData =
  \<comment> \<open>the parsed value of a row of the global bubble store\<close>
  gbType :: jsval
  gbText :: "string option"
  gbRichText :: "string option"
  gbBubbleId :: "string option"

record TempConversation =
  \<comment> \<open>\<^verbatim>\<open>TempConversation\<close> of the export route, \<^verbatim>\<open>ComposerConversation\<close> of the tabs route\<close>
  convId :: string
  title :: string
  summary :: "string option"
  convLastUpdatedAt :: string
  convCreatedAt :: string
  bubbles :: "ChatBubble list"

record ResponseConversation =
  respId :: string
  respName :: string
  respSummary :: "string option"
  respMessages :: "ChatBubble list"
  respCreatedAt :: string
  respLastUpdatedAt :: string

definition createBubble ::
    "role \<Rightarrow> string \<Rightarrow> string option \<Rightarrow> jsval \<Rightarrow> string option \<Rightarrow> ChatBubble" where
  "createBubble r c i t src =
     \<lparr>role = r, content = c, bid = i, originalType = t, originalSource = src\<rparr>"

section \<open>The bubble normalizers\<close>

text \<open>The bodies of the three loops that turn a raw record into at most one bubble.\<close>

definition contentOf :: "string option \<Rightarrow> string option \<Rightarrow> string" where
  \<comment> \<open>\<^verbatim>\<open>a || b || ""\<close>\<close>
  "contentOf a b = orEmpty (orS (orS a b) (Some []))"

definition chatResultBubble :: "RawBubble \<Rightarrow> ChatBubble option" where
  "chatResultBubble b =
     (if trim (contentOf (rawContent b) (rawText b)) \<noteq> []
      then Some (createBubble
                  (if rawRole b = Some ''user'' \<or> rawType b = JString ''user'' then User else Assistant)
                  (contentOf (rawContent b) (rawText b))
                  (orS (rawId b) (rawBubbleId b))
                  (rawType b)
                  (Some ''chatResult''))
      else None)"

definition composerMessageBubble :: "ComposerMessage \<Rightarrow> ChatBubble option" where
  "composerMessageBubble msg =
     (if trim (contentOf (msgContent msg) (msgText msg)) \<noteq> []
      then Some (createBubble
                  (if msgRole msg = Some ''user'' \<or> msgType msg = JNumber (Fin 1) then User else Assistant)
                  (contentOf (msgContent msg) (msgText msg))
                  (msgId msg)
                  (msgType msg)
                  (Some ''composerMessage''))
      else None)"

definition globalBubble :: "BubbleData \<Rightarrow> string option \<Rightarrow> ChatBubble option" where
  \<comment> \<open>the second argument is \<^verbatim>\<open>keyParts[2]\<close>\<close>
  "globalBubble bubbleData keyPart =
     (if trim (contentOf (gbText bubbleData) (gbRichText bubbleData)) \<noteq> []
      then Some (createBubble
                  (if gbType bubbleData = JNumber (Fin 1) then User
                   else if gbType bubbleData = JNumber (Fin 0) \<or> gbType bubbleData = JNumber (Fin 2)
                   then Assistant else Assistant)
                  (contentOf (gbText bubbleData) (gbRichText bubbleData))
                  (orS (gbBubbleId bubbleData) keyPart)
                  (gbType bubbleData)
                  (Some ''globalBubble''))
      else None)"

fun stage :: "('a \<Rightarrow> 'b option) \<Rightarrow> 'b list \<Rightarrow> 'a list \<Rightarrow> 'b list" where
  \<comment> \<open>a loop that pushes onto \<open>acc\<close> what \<open>f\<close> makes of each element\<close>
  "stage f acc [] = acc"
| "stage f acc (x # xs) = stage f (case f x of None \<Rightarrow> acc | Some y \<Rightarrow> acc @ [y]) xs"

section \<open>The reconciliation state and its three passes\<close>

text \<open>
  The maps of a run are insertion-ordered \<^verbatim>\<open>Map\<close>s: association lists, where
  \<^const>\<open>AList.update\<close> replaces the value of a key in place or appends a new key.
  \<open>clockReads\<close> counts the calls of \<^verbatim>\<open>safeParseTimestamp\<close> so far; the call number \<open>n\<close>
  happens at the time \<open>clock e n\<close>.
\<close>

record rstate =
  allConversationsMap :: "(string \<times> TempConversation) list"
  allBubblesMap :: "(string \<times> ChatBubble list) list"
  headerOrderMap :: "(string \<times> (string \<times> nat) list) list"
  workspaceComposerIds :: "string set"
  clockReads :: nat

record env =
  clock :: "nat \<Rightarrow> int"
  parseImpl :: "string \<Rightarrow> int option"

definition initialState :: rstate where
  "initialState = \<lparr>allConversationsMap = [], allBubblesMap = [], headerOrderMap = [],
                    workspaceComposerIds = {}, clockReads = 0\<rparr>"

definition stampAt :: "env \<Rightarrow> nat \<Rightarrow> jsval \<Rightarrow> string" where
  "stampAt e n v = safeParseTimestamp (clock e n) (parseImpl e) v"

definition getOrEmpty :: "(string \<times> 'a list) list \<Rightarrow> string \<Rightarrow> 'a list" where
  \<comment> \<open>\<^verbatim>\<open>map.get(k) || []\<close>\<close>
  "getOrEmpty m k = (case map_of m k of None \<Rightarrow> [] | Some xs \<Rightarrow> xs)"

definition defaultTitle :: "string \<Rightarrow> string" where
  "defaultTitle cid = ''Chat '' @ take 8 cid"

definition titleOr :: "string option \<Rightarrow> string \<Rightarrow> string" where
  \<comment> \<open>\<^verbatim>\<open>a || d\<close> for an optional string \<open>a\<close> and a string \<open>d\<close>\<close>
  "titleOr a d = (case a of None \<Rightarrow> d | Some s \<Rightarrow> if s \<noteq> [] then s else d)"

definition firstLine :: "string \<Rightarrow> string" where
  \<comment> \<open>\<^verbatim>\<open>s.split("\n")[0]\<close>\<close>
  "firstLine s = takeWhile (\<lambda>c. c \<noteq> CHR 0x0A) s"

definition tabConversation :: "env \<Rightarrow> nat \<Rightarrow> RawTab \<Rightarrow> TempConversation" where
  "tabConversation e n tab =
     \<lparr>convId = tabId tab,
      title = titleOr (map_option firstLine (chatTitle tab)) (defaultTitle (tabId tab)),
      summary = None,
      convLastUpdatedAt = stampAt e n (lastSendTime tab),
      convCreatedAt = stampAt e (n + 1) (lastSendTime tab),
      bubbles = []\<rparr>"

definition processTab :: "env \<Rightarrow> rstate \<Rightarrow> RawTab \<Rightarrow> rstate" where
  \<comment> \<open>pass 1, the body of \<^verbatim>\<open>(chatData.tabs || []).forEach\<close>\<close>
  "processTab e st tab =
     st\<lparr>allBubblesMap :=
          AList.update (tabId tab) (stage chatResultBubble [] (case tabBubbles tab of None \<Rightarrow> [] | Some bs \<Rightarrow> bs))
            (allBubblesMap st),
        allConversationsMap :=
          AList.update (tabId tab) (tabConversation e (clockReads st) tab) (allConversationsMap st),
        clockReads := clockReads st + 2\<rparr>"

fun orderMapFrom :: "nat \<Rightarrow> string list \<Rightarrow> (string \<times> nat) list \<Rightarrow> (string \<times> nat) list" where
  \<comment> \<open>\<^verbatim>\<open>headers.forEach((header, index) => orderMap.set(header.bubbleId, index))\<close>\<close>
  "orderMapFrom i [] m = m"
| "orderMapFrom i (h # hs) m = orderMapFrom (Suc i) hs (AList.update h i m)"

definition saveHeaderOrder ::
    "ComposerInstance \<Rightarrow> (string \<times> (string \<times> nat) list) list \<Rightarrow> (string \<times> (string \<times> nat) list) list" where
  "saveHeaderOrder composer hom =
     (case fullConversationHeadersOnly composer of
        None \<Rightarrow> hom
      | Some hs \<Rightarrow> if hs \<noteq> [] then AList.update (composerId composer) (orderMapFrom 0 hs []) hom else hom)"

definition messagesSource :: "ComposerInstance \<Rightarrow> ComposerMessage list" where
  \<comment> \<open>\<^verbatim>\<open>composer.messages || composer.conversation\<close>; an array is truthy also when empty\<close>
  "messagesSource composer =
     (case messages composer of
        Some ms \<Rightarrow> ms
      | None \<Rightarrow> (case conversation composer of Some ms \<Rightarrow> ms | None \<Rightarrow> []))"

definition mergeConversation :: "env \<Rightarrow> nat \<Rightarrow> ComposerInstance \<Rightarrow> TempConversation \<Rightarrow> TempConversation" where
  \<comment> \<open>the branch \<^verbatim>\<open>allConversationsMap.has(composerId)\<close> of pass 2\<close>
  "mergeConversation e n composer existingConv =
     existingConv
       \<lparr>title := titleOr (name composer) (title existingConv),
        summary := orS (latestConversationSummary composer) (summary existingConv),
        convLastUpdatedAt :=
          stampAt e n (jsOr (jsOr (lastUpdatedAt composer) (createdAt composer))
                            (JString (convLastUpdatedAt existingConv))),
        convCreatedAt :=
          stampAt e (n + 1) (jsOr (createdAt composer) (JString (convCreatedAt existingConv)))\<rparr>"

definition newConversation :: "env \<Rightarrow> nat \<Rightarrow> ComposerInstance \<Rightarrow> TempConversation" where
  "newConversation e n composer =
     \<lparr>convId = composerId composer,
      title = titleOr (name composer) (defaultTitle (composerId composer)),
      summary = orS (latestConversationSummary composer) (name composer),
      convLastUpdatedAt = stampAt e n (jsOr (lastUpdatedAt composer) (createdAt composer)),
      convCreatedAt = stampAt e (n + 1) (jsOr (createdAt composer) (lastUpdatedAt composer)),
      bubbles = []\<rparr>"

definition processComposer :: "env \<Rightarrow> rstate \<Rightarrow> ComposerInstance \<Rightarrow> rstate" where
  \<comment> \<open>pass 2, the body of \<^verbatim>\<open>for (const composer of parsedComposers)\<close>\<close>
  "processComposer e st composer =
     st\<lparr>headerOrderMap := saveHeaderOrder composer (headerOrderMap st),
        allBubblesMap :=
          AList.update (composerId composer)
            (stage composerMessageBubble (getOrEmpty (allBubblesMap st) (composerId composer))
               (messagesSource composer))
            (allBubblesMap st),
        allConversationsMap :=
          AList.update (composerId composer)
            (case map_of (allConversationsMap st) (composerId composer) of
               Some existingConv \<Rightarrow> mergeConversation e (clockReads st) composer existingConv
             | None \<Rightarrow> newConversation e (clockReads st) composer)
            (allConversationsMap st),
        clockReads := clockReads st + 2\<rparr>"

definition metaConversation :: "env \<Rightarrow> nat \<Rightarrow> ComposerMeta option \<Rightarrow> string \<Rightarrow> TempConversation" where
  \<comment> \<open>the conversation the global scan creates for a composer id that has none yet\<close>
  "metaConversation e n composerMeta cid =
     \<lparr>convId = cid,
      title = titleOr (case composerMeta of None \<Rightarrow> None | Some m \<Rightarrow> metaName m) (defaultTitle cid),
      summary = None,
      convLastUpdatedAt =
        stampAt e n (jsOr (case composerMeta of None \<Rightarrow> JUndefined | Some m \<Rightarrow> metaLastUpdatedAt m) JUndefined),
      convCreatedAt =
        stampAt e (n + 1) (jsOr (case composerMeta of None \<Rightarrow> JUndefined | Some m \<Rightarrow> metaCreatedAt m) JUndefined),
      bubbles = []\<rparr>"

definition unifyGlobal :: "env \<Rightarrow> ComposerMeta list \<Rightarrow> string \<Rightarrow> rstate \<Rightarrow> rstate" where
  \<comment> \<open>after a global bubble was staged: create the conversation, or refresh its
      \<^verbatim>\<open>lastUpdatedAt\<close> from the composer metadata\<close>
  "unifyGlobal e metas cid st =
     (case map_of (allConversationsMap st) cid of
        None \<Rightarrow>
          st\<lparr>allConversationsMap :=
               AList.update cid
                 (metaConversation e (clockReads st) (find (\<lambda>c. metaComposerId c = cid) metas) cid)
                 (allConversationsMap st),
             clockReads := clockReads st + 2\<rparr>
      | Some conv \<Rightarrow>
          (case find (\<lambda>c. metaComposerId c = cid) metas of
             None \<Rightarrow> st
           | Some m \<Rightarrow>
               if truthy (metaLastUpdatedAt m)
               then st\<lparr>allConversationsMap :=
                         AList.update cid
                           (conv\<lparr>convLastUpdatedAt := stampAt e (clockReads st) (metaLastUpdatedAt m)\<rparr>)
                           (allConversationsMap st),
                       clockReads := clockReads st + 1\<rparr>
               else st))"

definition admitGlobal ::
    "env \<Rightarrow> ComposerMeta list \<Rightarrow> rstate \<Rightarrow> string \<Rightarrow> string option \<Rightarrow> BubbleData \<Rightarrow> rstate" where
  \<comment> \<open>what the scan does with a record whose composer id is known to the workspace\<close>
  "admitGlobal e metas st cid keyPart bubbleData =
     (case globalBubble bubbleData keyPart of
        None \<Rightarrow> st
      | Some b \<Rightarrow>
          unifyGlobal e metas cid
            (st\<lparr>allBubblesMap :=
                  AList.update cid (getOrEmpty (allBubblesMap st) cid @ [b]) (allBubblesMap st)\<rparr>))"

definition processGlobalBubble ::
    "env \<Rightarrow> ComposerMeta list \<Rightarrow> rstate \<Rightarrow> string \<times> BubbleData option \<Rightarrow> rstate" where
  \<comment> \<open>pass 3, the body of \<^verbatim>\<open>for (const rawBubble of globalRawBubbles)\<close>. A row is its key and
      its parsed value, \<open>None\<close> when \<^verbatim>\<open>JSON.parse\<close> or a field access throws; the \<^verbatim>\<open>catch\<close> of the
      loop body ignores the exception.\<close>
  "processGlobalBubble e metas st rawBubble =
     (case snd rawBubble of
        None \<Rightarrow> st
      | Some bubbleData \<Rightarrow>
          if length (splitOn CHR '':'' (fst rawBubble)) > 1
          then (if splitOn CHR '':'' (fst rawBubble) ! 1 \<notin> workspaceComposerIds st
                then st
                else admitGlobal e metas st (splitOn CHR '':'' (fst rawBubble) ! 1)
                       (nthOpt (splitOn CHR '':'' (fst rawBubble)) 2) bubbleData)
          else st)"

section \<open>Consolidation\<close>

definition sameBubble :: "ChatBubble \<Rightarrow> ChatBubble \<Rightarrow> bool" where
  "sameBubble bubble b \<longleftrightarrow> content b = content bubble \<and> role b = role bubble"

definition uniqueBubbles :: "ChatBubble list \<Rightarrow> ChatBubble list" where
  \<comment> \<open>\<^verbatim>\<open>self.filter((bubble, index) => index === self.findIndex(sameBubble))\<close>\<close>
  "uniqueBubbles self =
     map snd (filter (\<lambda>ib. int (fst ib) = findIndex (sameBubble (snd ib)) self) (enumerate 0 self))"

definition headerIndex :: "(string \<times> nat) list \<Rightarrow> ChatBubble \<Rightarrow> nat option" where
  \<comment> \<open>\<^verbatim>\<open>headerMap.get(a.id || "")\<close>\<close>
  "headerIndex headerMap a = map_of headerMap (orEmpty (bid a))"

definition headerCompare :: "(string \<times> nat) list \<Rightarrow> ChatBubble \<Rightarrow> ChatBubble \<Rightarrow> int" where
  "headerCompare headerMap a b =
     (case headerIndex headerMap a of
        Some indexA \<Rightarrow>
          (case headerIndex headerMap b of
             Some indexB \<Rightarrow> int indexA - int indexB
           | None \<Rightarrow> - 1)
      | None \<Rightarrow>
          (case headerIndex headerMap b of
             Some indexB \<Rightarrow> 1
           | None \<Rightarrow> 0))"

definition orderBubbles :: "(string \<times> nat) list option \<Rightarrow> ChatBubble list \<Rightarrow> ChatBubble list" where
  \<comment> \<open>\<^verbatim>\<open>if (headerMap && headerMap.size > 0) uniqueBubbles.sort(...)\<close>\<close>
  "orderBubbles headerMap unique =
     (case headerMap of
        None \<Rightarrow> unique
      | Some hm \<Rightarrow> if length hm > 0 then jsSort (headerCompare hm) unique else unique)"

definition finalMessages :: "rstate \<Rightarrow> string \<Rightarrow> ChatBubble list" where
  "finalMessages st cid =
     orderBubbles (map_of (headerOrderMap st) cid) (uniqueBubbles (getOrEmpty (allBubblesMap st) cid))"

definition toResponse :: "rstate \<Rightarrow> TempConversation \<Rightarrow> ResponseConversation option" where
  \<comment> \<open>the body of \<^verbatim>\<open>allConversationsMap.forEach\<close>: a conversation is pushed when it has messages\<close>
  "toResponse st tempConv =
     (if length (finalMessages st (convId tempConv)) > 0
      then Some \<lparr>respId = convId tempConv,
                 respName = title tempConv,
                 respSummary = summary tempConv,
                 respMessages = finalMessages st (convId tempConv),
                 respCreatedAt = convCreatedAt tempConv,
                 respLastUpdatedAt = convLastUpdatedAt tempConv\<rparr>
      else None)"

definition compareLastUpdated ::
    "(string \<Rightarrow> int option) \<Rightarrow> ResponseConversation \<Rightarrow> ResponseConversation \<Rightarrow> int" where
  \<comment> \<open>\<^verbatim>\<open>new Date(b.lastUpdatedAt).getTime() - new Date(a.lastUpdatedAt).getTime()\<close>;
      a \<^verbatim>\<open>NaN\<close> result counts as 0 in a sort\<close>
  "compareLastUpdated lp a b =
     (case dateParse lp (respLastUpdatedAt b) of
        None \<Rightarrow> 0
      | Some tb \<Rightarrow> (case dateParse lp (respLastUpdatedAt a) of None \<Rightarrow> 0 | Some ta \<Rightarrow> tb - ta))"

definition consolidate :: "env \<Rightarrow> rstate \<Rightarrow> ResponseConversation list" where
  "consolidate e st =
     jsSort (compareLastUpdated (parseImpl e))
       (stage (toResponse st) [] (map snd (allConversationsMap st)))"

text \<open>
  Deduplication in the words of the specification, for comparison with \<^const>\<open>uniqueBubbles\<close>:
  a message is kept when no message staged before it (\<open>seen\<close>) has its role and content.
\<close>

fun firstOccurrences :: "ChatBubble list \<Rightarrow> ChatBubble list \<Rightarrow> ChatBubble list" where
  "firstOccurrences seen [] = []"
| "firstOccurrences seen (x # xs) =
     (if \<exists>p\<in>set seen. sameBubble x p then firstOccurrences (seen @ [x]) xs
      else x # firstOccurrences (seen @ [x]) xs)"

section \<open>An invariant of the conversation map\<close>

definition stampsOk :: "(string \<times> TempConversation) list \<Rightarrow> bool" where
  \<comment> \<open>both timestamps of every conversation are well-formed instants\<close>
  "stampsOk convs \<longleftrightarrow>
     (\<forall>c\<in>snd ` set convs. isoInstant (convLastUpdatedAt c) \<and> isoInstant (convCreatedAt c))"

section \<open>The two routes\<close>

text \<open>
  What the storage layer answers is an input of the model: whether a file exists, whether
  opening, querying or closing a database throws, and the rows a query returns. The value
  of a row is given parsed; \<open>Malformed\<close> stands for a value on which \<^verbatim>\<open>JSON.parse\<close> (or the
  first access into the parsed value) throws, \<open>EmptyValue\<close> for a falsy \<^verbatim>\<open>value\<close>.
\<close>

datatype 'a blob = EmptyValue | Malformed | Parsed 'a

record storage =
  dbExists :: bool
  dbOpen :: "exn option"
  chatGet :: "exn + ChatData blob option"
  composerGet :: "exn + ComposerMetadata blob option"
  globalExists :: bool
  globalOpen :: "exn option"
  composersBody :: "string list \<Rightarrow> exn + ComposerInstance option list"
  globalRawBubbles :: "exn + (string \<times> BubbleData option) list"
  dbClose :: "exn option"
  globalClose :: "exn option"

definition ingestChatTabs :: "env \<Rightarrow> ChatData blob option \<Rightarrow> rstate \<Rightarrow> exn + rstate" where
  \<comment> \<open>\<^verbatim>\<open>if (chatResult && chatResult.value) { ... }\<close>\<close>
  "ingestChatTabs e chatResult st =
     (case chatResult of
        None \<Rightarrow> Inr st
      | Some EmptyValue \<Rightarrow> Inr st
      | Some Malformed \<Rightarrow> Inl SyntaxError
      | Some (Parsed chatData) \<Rightarrow>
          Inr (foldl (processTab e) st (case tabs chatData of None \<Rightarrow> [] | Some ts \<Rightarrow> ts)))"

definition ingestComposers :: "env \<Rightarrow> storage \<Rightarrow> ComposerMeta list \<Rightarrow> rstate \<Rightarrow> exn + rstate" where
  \<comment> \<open>\<^verbatim>\<open>if (keys.length > 0) { ... }\<close>: one query for all composer bodies, then pass 2\<close>
  "ingestComposers e io metas st =
     (if map (\<lambda>it. ''composerData:'' @ metaComposerId it) metas \<noteq> []
      then (case composersBody io (map (\<lambda>it. ''composerData:'' @ metaComposerId it) metas) of
              Inl ex \<Rightarrow> Inl ex
            | Inr rows \<Rightarrow>
                (case those rows of
                   None \<Rightarrow> Inl SyntaxError
                 | Some parsedComposers \<Rightarrow> Inr (foldl (processComposer e) st parsedComposers)))
      else Inr st)"

definition scanGlobalBubbles :: "env \<Rightarrow> storage \<Rightarrow> ComposerMeta list \<Rightarrow> rstate \<Rightarrow> exn + rstate" where
  "scanGlobalBubbles e io metas st =
     (case globalRawBubbles io of
        Inl ex \<Rightarrow> Inl ex
      | Inr rows \<Rightarrow> Inr (foldl (processGlobalBubble e metas) st rows))"

definition ingestGlobal :: "env \<Rightarrow> storage \<Rightarrow> ComposerMetadata blob \<Rightarrow> rstate \<Rightarrow> exn + rstate" where
  \<comment> \<open>\<^verbatim>\<open>if (globalDb) { ... }\<close>\<close>
  "ingestGlobal e io value st =
     (case value of
        EmptyValue \<Rightarrow> Inr st
      | Malformed \<Rightarrow> Inl SyntaxError
      | Parsed md \<Rightarrow>
          (case ingestComposers e io (allComposers md)
                  (st\<lparr>workspaceComposerIds :=
                        workspaceComposerIds st \<union> set (map metaComposerId (allComposers md))\<rparr>) of
             Inl ex \<Rightarrow> Inl ex
           | Inr st2 \<Rightarrow> scanGlobalBubbles e io (allComposers md) st2))"

definition hasValue :: "'a blob option \<Rightarrow> bool" where
  \<comment> \<open>\<^verbatim>\<open>result && result.value\<close>\<close>
  "hasValue r = (case r of None \<Rightarrow> False | Some EmptyValue \<Rightarrow> False | Some Malformed \<Rightarrow> True | Some (Parsed x) \<Rightarrow> True)"

definition afterQueries ::
    "env \<Rightarrow> storage \<Rightarrow> bool \<Rightarrow> ChatData blob option \<Rightarrow> ComposerMetadata blob option
      \<Rightarrow> (exn + rstate) \<times> bool" where
  \<comment> \<open>the passes after the two workspace queries. \<open>canOpen\<close> says whether the global database
      gets opened when the code comes to it; the second component of the result says whether
      it was opened.\<close>
  "afterQueries e io canOpen chatResult composerMetadataResult =
     (case ingestChatTabs e chatResult initialState of
        Inl ex \<Rightarrow> (Inl ex, False)
      | Inr st \<Rightarrow>
          if hasValue composerMetadataResult
          then (if canOpen
                then (ingestGlobal e io (case composerMetadataResult of None \<Rightarrow> EmptyValue | Some v \<Rightarrow> v) st, True)
                else (Inr st, False))
          else (Inr st, False))"

definition reconcile :: "env \<Rightarrow> storage \<Rightarrow> bool \<Rightarrow> (exn + rstate) \<times> bool" where
  \<comment> \<open>the \<^verbatim>\<open>try\<close> block from the first query up to the consolidation\<close>
  "reconcile e io canOpen =
     (case chatGet io of
        Inl ex \<Rightarrow> (Inl ex, False)
      | Inr chatResult \<Rightarrow>
          (case composerGet io of
             Inl ex \<Rightarrow> (Inl ex, False)
           | Inr composerMetadataResult \<Rightarrow> afterQueries e io canOpen chatResult composerMetadataResult))"

definition finallyClose :: "storage \<Rightarrow> bool \<Rightarrow> 'a \<Rightarrow> exn + 'a" where
  \<comment> \<open>the \<^verbatim>\<open>finally\<close> block once the workspace database is open: an exception of a \<^verbatim>\<open>close\<close>
      replaces the result\<close>
  "finallyClose io globalOpened result =
     (case dbClose io of
        Some ex \<Rightarrow> Inl ex
      | None \<Rightarrow>
          if globalOpened
          then (case globalClose io of Some ex \<Rightarrow> Inl ex | None \<Rightarrow> Inr result)
          else Inr result)"

definition fetchConversationsForWorkspace :: "env \<Rightarrow> storage \<Rightarrow> exn + ResponseConversation list" where
  \<comment> \<open>the export route. \<open>Inl\<close> is an exception that leaves the function.\<close>
  "fetchConversationsForWorkspace e io =
     (if \<not> dbExists io then Inr []
      else (case dbOpen io of
              Some ex \<Rightarrow> Inr []
            | None \<Rightarrow>
                (case reconcile e io (globalExists io \<and> globalOpen io = None) of
                   (Inl ex, g) \<Rightarrow> finallyClose io g []
                 | (Inr st, g) \<Rightarrow> finallyClose io g (consolidate e st))))"

datatype response = Conversations "ResponseConversation list" | NotFound404 | Error500

definition GET :: "env \<Rightarrow> storage \<Rightarrow> exn + response" where
  \<comment> \<open>the tabs route: no test that a file exists, and an HTTP status for the failures\<close>
  "GET e io =
     (case dbOpen io of
        Some ex \<Rightarrow> Inr Error500
      | None \<Rightarrow>
          (case reconcile e io (globalOpen io = None) of
             (Inl ex, g) \<Rightarrow> finallyClose io g Error500
           | (Inr st, g) \<Rightarrow>
               finallyClose io g
                 (if consolidate e st = [] \<and> composerGet io = Inr None \<and> chatGet io = Inr None
                  then NotFound404
                  else Conversations (consolidate e st))))"

section \<open>Sample inputs\<close>

text \<open>Concrete inputs on which the theorems below are instantiated and evaluated.\<close>

definition noLegacyParse :: "string \<Rightarrow> int option" where
  \<comment> \<open>an implementation whose \<^verbatim>\<open>Date.parse\<close> reads the ISO format only\<close>
  "noLegacyParse s = None"

definition sampleEnv :: env where
  \<comment> \<open>a clock that advances by a millisecond per call, for a second\<close>
  "sampleEnv = \<lparr>clock = (\<lambda>n. 1700000000000 + int (min n 1000)), parseImpl = noLegacyParse\<rparr>"

definition sampleMeta :: ComposerMeta where
  "sampleMeta = \<lparr>metaComposerId = ''c1'', metaName = Some ''Notes'',
                  metaCreatedAt = JNumber (Fin 1700000000), metaLastUpdatedAt = JUndefined\<rparr>"

definition userBubble :: BubbleData where
  "userBubble = \<lparr>gbType = JNumber (Fin 1), gbText = Some ''question'', gbRichText = None, gbBubbleId = None\<rparr>"

definition assistantBubble :: BubbleData where
  "assistantBubble = \<lparr>gbType = JNumber (Fin 0), gbText = Some ''answer'', gbRichText = None, gbBubbleId = None\<rparr>"

definition blankBubble :: BubbleData where
  "blankBubble = \<lparr>gbType = JNumber (Fin 1), gbText = Some [CHR 0x20, CHR 0x09], gbRichText = Some ''ignored'', gbBubbleId = None\<rparr>"

definition ownRows :: "(string \<times> BubbleData option) list" where
  "ownRows = [(''bubbleId:c1:b1'', Some userBubble), (''bubbleId:c1:b2'', Some assistantBubble)]"

definition sampleStore :: storage where
  "sampleStore = \<lparr>dbExists = True, dbOpen = None, chatGet = Inr None,
     composerGet = Inr (Some (Parsed \<lparr>allComposers = [sampleMeta]\<rparr>)),
     globalExists = True, globalOpen = None, composersBody = (\<lambda>ks. Inr []),
     globalRawBubbles = Inr (ownRows @ [(''bubbleId:c2:b3'', Some userBubble)]),
     dbClose = None, globalClose = None\<rparr>"

definition knownState :: rstate where
  "knownState = initialState\<lparr>workspaceComposerIds := {''c1''}\<rparr>"

definition questionMsg :: ChatBubble where
  "questionMsg = createBubble User ''question'' (Some ''b1'') (JNumber (Fin 1)) (Some ''globalBubble'')"

definition answerMsg :: ChatBubble where
  "answerMsg = createBubble Assistant ''answer'' (Some ''b2'') (JNumber (Fin 0)) (Some ''globalBubble'')"

definition sampleResult :: "ResponseConversation list" where
  \<comment> \<open>what the export route answers on \<open>sampleStore\<close>\<close>
  "sampleResult = [\<lparr>respId = ''c1'', respName = ''Notes'', respSummary = None,
      respMessages = [questionMsg, answerMsg],
      respCreatedAt = ''2023-11-14T22:13:20.000Z'', respLastUpdatedAt = ''2023-11-14T22:13:20.000Z''\<rparr>]"

definition msgA :: ChatBubble where
  "msgA = createBubble User ''alpha'' (Some ''a'') JUndefined (Some ''composerMessage'')"

definition msgA2 :: ChatBubble where
  \<comment> \<open>the role and content of \<open>msgA\<close> under another id\<close>
  "msgA2 = createBubble User ''alpha'' (Some ''a2'') JUndefined (Some ''globalBubble'')"

definition msgB :: ChatBubble where
  "msgB = createBubble Assistant ''beta'' (Some ''b'') JUndefined (Some ''composerMessage'')"

definition msgC :: ChatBubble where
  "msgC = createBubble User ''gamma'' (Some ''c'') JUndefined (Some ''composerMessage'')"

definition sampleHeaders :: "(string \<times> nat) list" where
  \<comment> \<open>the order map of the headers \<open>b\<close>, \<open>c\<close>: hint 0 for \<open>msgB\<close>, hint 1 for \<open>msgC\<close>, none for \<open>msgA\<close>\<close>
  "sampleHeaders = orderMapFrom 0 [''b'', ''c''] []"

definition convX :: TempConversation where
  "convX = \<lparr>convId = ''x'', title = ''X'', summary = None,
            convLastUpdatedAt = ''2023-11-14T22:13:20.000Z'', convCreatedAt = ''2023-11-14T22:13:20.000Z'',
            bubbles = []\<rparr>"

definition hintState :: rstate where
  "hintState = initialState\<lparr>allConversationsMap := [(''x'', convX)],
                             allBubblesMap := [(''x'', [msgA, msgB, msgC])],
                             headerOrderMap := [(''x'', sampleHeaders)]\<rparr>"

definition blankRaw :: RawBubble where
  "blankRaw = \<lparr>rawRole = Some ''user'', rawType = JUndefined, rawContent = Some [CHR 0x20, CHR 0x0A],
               rawText = Some ''text'', rawId = None, rawBubbleId = None\<rparr>"

definition blankMsg :: ComposerMessage where
  "blankMsg = \<lparr>msgRole = Some ''user'', msgType = JNumber (Fin 1), msgContent = None, msgText = None, msgId = None\<rparr>"

definition sampleTab :: RawTab where
  "sampleTab = \<lparr>tabId = ''t1'', chatTitle = Some (''Hello'' @ [CHR 0x0A] @ ''world''),
                 lastSendTime = JNumber (Fin 1700000000),
                 tabBubbles = Some [\<lparr>rawRole = Some ''user'', rawType = JUndefined, rawContent = Some ''Hi'',
                                     rawText = None, rawId = None, rawBubbleId = None\<rparr>]\<rparr>"

definition sampleComposer :: ComposerInstance where
  \<comment> \<open>a composer with the id of \<open>sampleTab\<close>, another title and no timestamps\<close>
  "sampleComposer = \<lparr>composerId = ''t1'', name = Some ''Composer title'', createdAt = JUndefined,
                      lastUpdatedAt = JUndefined, messages = None, conversation = None,
                      fullConversationHeadersOnly = None, latestConversationSummary = None\<rparr>"

definition mergeStore :: storage where
  "mergeStore = \<lparr>dbExists = True, dbOpen = None,
     chatGet = Inr (Some (Parsed \<lparr>tabs = Some [sampleTab]\<rparr>)),
     composerGet = Inr (Some (Parsed \<lparr>allComposers =
        [\<lparr>metaComposerId = ''t1'', metaName = None, metaCreatedAt = JUndefined, metaLastUpdatedAt = JUndefined\<rparr>]\<rparr>)),
     globalExists = True, globalOpen = None, composersBody = (\<lambda>ks. Inr [Some sampleComposer]),
     globalRawBubbles = Inr [], dbClose = None, globalClose = None\<rparr>"

definition failStore :: storage where
  \<comment> \<open>\<open>mergeStore\<close> with a global database that cannot be opened\<close>
  "failStore = mergeStore\<lparr>globalOpen := Some IOError\<rparr>"

definition hiMsg :: ChatBubble where
  "hiMsg = createBubble User ''Hi'' None JUndefined (Some ''chatResult'')"

definition mergedResult :: "ResponseConversation list" where
  \<comment> \<open>what the export route answers on \<open>mergeStore\<close>\<close>
  "mergedResult = [\<lparr>respId = ''t1'', respName = ''Composer title'', respSummary = None,
      respMessages = [hiMsg],
      respCreatedAt = ''2023-11-14T22:13:20.000Z'', respLastUpdatedAt = ''2023-11-14T22:13:20.000Z''\<rparr>]"

definition tabResult :: "ResponseConversation list" where
  \<comment> \<open>what the export route answers on \<open>failStore\<close>\<close>
  "tabResult = [\<lparr>respId = ''t1'', respName = ''Hello'', respSummary = None,
      respMessages = [hiMsg],
      respCreatedAt = ''2023-11-14T22:13:20.000Z'', respLastUpdatedAt = ''2023-11-14T22:13:20.000Z''\<rparr>]"

definition missingStore :: storage where
  "missingStore = mergeStore\<lparr>dbExists := False\<rparr>"

definition queryFailStore :: storage where
  "queryFailStore = mergeStore\<lparr>chatGet := Inl IOError\<rparr>"

definition scanFailStore :: storage where
  "scanFailStore = mergeStore\<lparr>globalRawBubbles := Inl IOError\<rparr>"

definition closeFailStore :: storage where
  "closeFailStore = mergeStore\<lparr>dbClose := Some IOError\<rparr>"

section \<open>Properties of the date functions\<close>

lemma below_ten_cases:
  assumes "k < (10::nat)"
  shows "k = 0 \<or> k = 1 \<or> k = 2 \<or> k = 3 \<or> k = 4 \<or> k = 5 \<or> k = 6 \<or> k = 7 \<or> k = 8 \<or> k = 9"
  using assms by arith

lemma digitVal_digit: "digitVal (digit n) = n mod 10"
proof -
  have "n mod 10 < 10" by simp
  then show ?thesis
    using below_ten_cases [of "n mod 10"] by (auto simp: digitVal_def digit_def)
qed

lemma digit_not_sign: "digit n \<noteq> CHR ''+'' \<and> digit n \<noteq> CHR ''-''"
proof -
  have "n mod 10 < 10" by simp
  then show ?thesis
    using below_ten_cases [of "n mod 10"] by (auto simp: digit_def)
qed

lemma numVal_snoc: "numVal (xs @ [digit n]) = 10 * numVal xs + n mod 10"
  by (simp add: numVal_def digitVal_digit)

lemma div_by_tens:
  "(n::nat) div 100 = n div 10 div 10"
  "n div 1000 = n div 10 div 10 div 10"
  "n div 10000 = n div 10 div 10 div 10 div 10"
  "n div 100000 = n div 10 div 10 div 10 div 10 div 10"
  by (simp_all add: div_mult2_eq [symmetric])

lemma pad_snoc:
  "pad2 n = [digit (n div 10)] @ [digit n]"
  "pad3 n = pad2 (n div 10) @ [digit n]"
  "pad4 n = pad3 (n div 10) @ [digit n]"
  "pad6 n = pad4 (n div 10 div 10) @ [digit (n div 10)] @ [digit n]"
  by (simp_all add: pad2_def pad3_def pad4_def pad6_def div_by_tens)

lemma numVal_pad2: "n < 100 \<Longrightarrow> numVal (pad2 n) = n"
  by (simp add: numVal_def pad2_def digitVal_digit)

lemma numVal_pad3:
  assumes "n < 1000"
  shows "numVal (pad3 n) = n"
proof -
  have "n div 10 < 100" using assms by simp
  then show ?thesis by (simp add: pad_snoc(2) numVal_snoc numVal_pad2)
qed

lemma numVal_pad4:
  assumes "n < 10000"
  shows "numVal (pad4 n) = n"
proof -
  have "n div 10 < 1000" using assms by simp
  then show ?thesis by (simp add: pad_snoc(3) numVal_snoc numVal_pad3)
qed

lemma numVal_pad6:
  assumes "n < 1000000"
  shows "numVal (pad6 n) = n"
proof -
  have a: "n div 10 div 10 < 10000" using assms by (simp add: div_by_tens [symmetric])
  have "numVal (pad6 n) = 10 * (10 * numVal (pad4 (n div 10 div 10)) + n div 10 mod 10) + n mod 10"
    unfolding pad_snoc(4) append_assoc [symmetric] numVal_snoc ..
  also have "\<dots> = 10 * (10 * (n div 10 div 10) + n div 10 mod 10) + n mod 10"
    by (simp add: numVal_pad4 [OF a])
  also have "\<dots> = n" by simp
  finally show ?thesis .
qed

text \<open>Month and day of a day of the year, and back.\<close>

lemma civilOfYearDay_fields:
  assumes "0 \<le> doy" "doy \<le> 365" "civilOfYearDay y doy = (Y, m, d)"
  shows "1 \<le> m \<and> m \<le> 12 \<and> 1 \<le> d \<and> d \<le> 31 \<and> y \<le> Y \<and> Y \<le> y + 1
         \<and> daysFromCivil Y m d = daysOfMarchYear y doy"
proof -
  define mp where "mp = (5 * doy + 2) div 153"
  have mp: "0 \<le> mp" "mp \<le> 11" "153 * mp \<le> 5 * doy + 2" "5 * doy + 2 < 153 * mp + 153"
    using assms(1,2) unfolding mp_def by arith+
  have m: "m = (if mp < 10 then mp + 3 else mp - 9)"
    and d: "d = doy - (153 * mp + 2) div 5 + 1"
    and Y: "Y = (if m \<le> 2 then y + 1 else y)"
    using assms(3) by (auto simp: civilOfYearDay_def monthDay_def mp_def split: if_splits)
  define q where "q = (153 * mp + 2) div 5"
  have q: "5 * q \<le> 153 * mp + 2" "153 * mp + 2 < 5 * q + 5" unfolding q_def by arith+
  have "1 \<le> d" "d \<le> 31" using mp(3,4) q unfolding d q_def [symmetric] by linarith+
  moreover have "1 \<le> m" "m \<le> 12" using mp(1,2) unfolding m by auto
  moreover have "y \<le> Y" "Y \<le> y + 1" unfolding Y by auto
  moreover have "(if m > 2 then m - 3 else m + 9) = mp" "(if m \<le> 2 then Y - 1 else Y) = y"
    using mp(1,2) unfolding Y m by auto
  then have "daysFromCivil Y m d = daysOfMarchYear y doy"
    unfolding daysFromCivil_def by (simp add: d)
  ultimately show ?thesis by simp
qed

text \<open>The split of a day of a 400-year era into year and day of the year, and back.\<close>

lemma civilOfEra_yearDay:
  assumes "0 \<le> d1" "d1 < 146097"
  shows "\<exists>y doy. civilOfEra n400 d1 = civilOfYearDay y doy \<and> 0 \<le> doy \<and> doy \<le> 365
           \<and> 400 * n400 \<le> y \<and> y \<le> 400 * n400 + 399
           \<and> daysOfMarchYear y doy = 146097 * n400 + d1 - 719468"
proof -
  define c where "c = d1 div 36524"
  define n100 where "n100 = min 3 c"
  define d2 where "d2 = d1 - n100 * 36524"
  define n4 where "n4 = d2 div 1461"
  define d3 where "d3 = d2 mod 1461"
  define k where "k = d3 div 365"
  define n1 where "n1 = min 3 k"
  define doy where "doy = d3 - n1 * 365"
  define r where "r = 100 * n100 + 4 * n4 + n1"
  define y where "y = 400 * n400 + r"
  have c: "36524 * c \<le> d1" "d1 < 36524 * c + 36524" unfolding c_def by arith+
  have n100: "0 \<le> n100" "n100 \<le> 3" using assms c unfolding n100_def by linarith+
  have d2: "0 \<le> d2" "d2 \<le> 36524"
    using assms c unfolding d2_def n100_def by linarith+
  have n4: "d2 = 1461 * n4 + d3" "0 \<le> d3" "d3 < 1461"
    unfolding n4_def d3_def by simp_all
  have n4b: "0 \<le> n4" "n4 \<le> 24" using d2 n4 by linarith+
  have k: "365 * k \<le> d3" "d3 < 365 * k + 365" unfolding k_def by arith+
  have n1: "0 \<le> n1" "n1 \<le> 3" using n4(2) k unfolding n1_def by linarith+
  have doy: "0 \<le> doy" "doy \<le> 365" using n4(2,3) k unfolding doy_def n1_def by linarith+
  have r: "0 \<le> r" "r \<le> 399" using n1 n4b n100 unfolding r_def by linarith+
  have r4: "r div 4 = 25 * n100 + n4" using n1 unfolding r_def by arith
  have r100: "r div 100 = n100" using n1 n4b unfolding r_def by arith
  have y4: "y div 4 = 100 * n400 + r div 4" unfolding y_def by arith
  have y100: "y div 100 = 4 * n400 + r div 100" unfolding y_def by arith
  have y400: "y div 400 = n400" using r unfolding y_def by arith
  have "daysOfMarchYear y doy = 146097 * n400 + d1 - 719468"
    unfolding daysOfMarchYear_def y4 y100 y400 r4 r100
    unfolding y_def r_def doy_def using n4(1) d2_def by simp
  moreover have "civilOfEra n400 d1 = civilOfYearDay y doy"
    by (simp add: civilOfEra_def civilOfCentury_def civilOfCycle_def civilOfFour_def
        c_def n100_def d2_def n4_def d3_def k_def n1_def doy_def y_def r_def add.assoc)
  moreover have "400 * n400 \<le> y" "y \<le> 400 * n400 + 399"
    using r unfolding y_def by auto
  ultimately show ?thesis using doy by blast
qed

lemma civilFromDays_fields:
  assumes "civilFromDays z = (Y, m, d)"
  shows "1 \<le> m \<and> m \<le> 12 \<and> 1 \<le> d \<and> d \<le> 31 \<and> daysFromCivil Y m d = z
         \<and> 400 * ((z + 719468) div 146097) \<le> Y \<and> Y \<le> 400 * ((z + 719468) div 146097) + 400"
proof -
  let ?e = "z + 719468"
  have r: "0 \<le> ?e mod 146097" "?e mod 146097 < 146097" by simp_all
  from civilOfEra_yearDay [OF r, of "?e div 146097"] obtain y doy where
    yd: "civilOfEra (?e div 146097) (?e mod 146097) = civilOfYearDay y doy" "0 \<le> doy" "doy \<le> 365"
      "400 * (?e div 146097) \<le> y" "y \<le> 400 * (?e div 146097) + 399"
      "daysOfMarchYear y doy = 146097 * (?e div 146097) + ?e mod 146097 - 719468"
    by blast
  have c: "civilOfYearDay y doy = (Y, m, d)"
    using assms yd(1) by (simp add: civilFromDays_def)
  have "146097 * (?e div 146097) + ?e mod 146097 = ?e" by (rule mult_div_mod_eq)
  then have "daysOfMarchYear y doy = z" using yd(6) by simp
  then show ?thesis
    using civilOfYearDay_fields [OF yd(2,3) c] yd(4,5) by simp
qed

lemma dayTime_recompose:
  "ms div 3600000 * 3600000 + ms div 60000 mod 60 * 60000 + ms div 1000 mod 60 * 1000
     + ms mod 1000 = (ms::int)"
proof -
  define a where "a = ms div 1000"
  define b where "b = a div 60"
  define c where "c = b div 60"
  have b: "ms div 60000 = b"
    using zdiv_zmult2_eq [of 60 ms 1000] by (simp add: a_def b_def)
  have c: "ms div 3600000 = c"
    using zdiv_zmult2_eq [of 60 ms 60000] by (simp add: b c_def)
  have e1: "ms = 1000 * a + ms mod 1000" unfolding a_def by (rule mult_div_mod_eq [symmetric])
  have e2: "a = 60 * b + a mod 60" unfolding b_def by (rule mult_div_mod_eq [symmetric])
  have e3: "b = 60 * c + b mod 60" unfolding c_def by (rule mult_div_mod_eq [symmetric])
  show ?thesis unfolding b c a_def [symmetric] using e1 e2 e3 by linarith
qed

lemma hour_bound:
  assumes "0 \<le> ms" "ms < 86400000"
  shows "0 \<le> ms div 3600000 \<and> ms div 3600000 < (24::int)"
proof -
  define q where "q = ms div 3600000"
  have "ms = 3600000 * q + ms mod 3600000" unfolding q_def by (rule mult_div_mod_eq [symmetric])
  moreover have "0 \<le> ms mod 3600000" "ms mod 3600000 < 3600000" by simp_all
  ultimately show ?thesis unfolding q_def [symmetric] using assms by linarith
qed

lemma era_bound:
  assumes "validTime t"
  shows "- 680 \<le> (t div 86400000 + 719468) div 146097 \<and> (t div 86400000 + 719468) div 146097 \<le> 689"
proof -
  define z where "z = t div 86400000"
  define q where "q = (z + 719468) div 146097"
  have "t = 86400000 * z + t mod 86400000" unfolding z_def by (rule mult_div_mod_eq [symmetric])
  moreover have "0 \<le> t mod 86400000" "t mod 86400000 < 86400000" by simp_all
  ultimately have z: "- 100000000 \<le> z" "z \<le> 100000000"
    using assms unfolding validTime_def maxTime_def by linarith+
  have "z + 719468 = 146097 * q + (z + 719468) mod 146097"
    unfolding q_def by (rule mult_div_mod_eq [symmetric])
  moreover have "0 \<le> (z + 719468) mod 146097" "(z + 719468) mod 146097 < 146097" by simp_all
  ultimately show ?thesis unfolding z_def [symmetric] q_def [symmetric] using z by linarith
qed

lemma timeFromFields_format:
  assumes "m < 100" "d < 100" "h < 100" "mi < 100" "s < 100" "ms < 1000"
  shows "timeFromFields y (''-'' @ pad2 m @ ''-'' @ pad2 d @ ''T'' @ pad2 h @ '':'' @ pad2 mi @ '':'' @
           pad2 s @ ''.'' @ pad3 ms @ ''Z'')
         = daysFromCivil y (int m) (int d) * 86400000 + int h * 3600000 + int mi * 60000
           + int s * 1000 + int ms"
proof -
  have p2: "\<And>n. n < 100 \<Longrightarrow> numVal [digit (n div 10), digit n] = n"
    using numVal_pad2 by (simp add: pad2_def)
  have p3: "\<And>n. n < 1000 \<Longrightarrow> numVal [digit (n div 100), digit (n div 10), digit n] = n"
    using numVal_pad3 by (simp add: pad3_def)
  show ?thesis
    by (simp add: timeFromFields_def pad2_def pad3_def p2 p3 assms)
qed

text \<open>Reading the digits of an ISO text gives the instant back.\<close>

lemma isoCandidate_formatISO:
  assumes "validTime t"
  shows "isoCandidate (formatISO t) = t"
proof -
  define z where "z = t div 86400000"
  define ms where "ms = t mod 86400000"
  obtain Y m d where c: "civilFromDays z = (Y, m, d)" by (cases "civilFromDays z") auto
  note f = civilFromDays_fields [OF c]
  have ms: "0 \<le> ms" "ms < 86400000" unfolding ms_def by simp_all
  note e = era_bound [OF assms, folded z_def]
  have Y: "- 1000000 < Y" "Y < 1000000" using f e by linarith+
  define hh where "hh = nat (ms div 3600000)"
  define mi where "mi = nat (ms div 60000 mod 60)"
  define ss where "ss = nat (ms div 1000 mod 60)"
  define ml where "ml = nat (ms mod 1000)"
  define rest where "rest = ''-'' @ pad2 (nat m) @ ''-'' @ pad2 (nat d) @ ''T'' @
       pad2 hh @ '':'' @ pad2 mi @ '':'' @ pad2 ss @ ''.'' @ pad3 ml @ ''Z''"
  have fmt: "formatISO t = yearString Y @ rest"
    by (simp add: formatISO_def formatFields_def z_def [symmetric] ms_def [symmetric] c rest_def
        hh_def mi_def ss_def ml_def)
  note h = hour_bound [OF ms]
  have b: "nat m < 100" "nat d < 100" "hh < 100" "mi < 100" "ss < 100" "ml < 1000"
    using f h unfolding hh_def mi_def ss_def ml_def by auto
  have i: "int (nat m) = m" "int (nat d) = d" "int hh = ms div 3600000"
    "int mi = ms div 60000 mod 60" "int ss = ms div 1000 mod 60" "int ml = ms mod 1000"
    using f h unfolding hh_def mi_def ss_def ml_def by auto
  have tf: "timeFromFields y rest = daysFromCivil y m d * 86400000 + ms" for y
    unfolding rest_def timeFromFields_format [OF b] i
    using dayTime_recompose [of ms] by linarith
  have tz: "z * 86400000 + ms = t" unfolding z_def ms_def by simp
  have cand: "isoCandidate (yearString Y @ rest) = timeFromFields Y rest"
  proof (cases "0 \<le> Y \<and> Y \<le> 9999")
    case True
    then have n: "nat Y < 10000" by linarith
    have ys: "yearString Y = pad4 (nat Y)" using True by (simp add: yearString_def)
    have p4: "numVal [digit (nat Y div 1000), digit (nat Y div 100), digit (nat Y div 10), digit (nat Y)] = nat Y"
      using numVal_pad4 [OF n] by (simp add: pad4_def)
    show ?thesis using True
      by (simp add: ys pad4_def isoCandidate_def digit_not_sign p4)
  next
    case False
    then have ys: "yearString Y = (if Y < 0 then CHR ''-'' else CHR ''+'') # pad6 (nat \<bar>Y\<bar>)"
      by (auto simp: yearString_def)
    have l6: "\<And>k. length (pad6 k) = 6" by (simp add: pad6_def)
    show ?thesis using False Y
      by (auto simp: ys isoCandidate_def l6 numVal_pad6)
  qed
  show ?thesis unfolding fmt cand tf using f tz by simp
qed

lemma parseISO_formatISO: "validTime t \<Longrightarrow> parseISO (formatISO t) = Some t"
  by (simp add: parseISO_def isoCandidate_formatISO)

lemma parseISO_Some: "parseISO s = Some t \<Longrightarrow> validTime t \<and> formatISO t = s"
  by (auto simp: parseISO_def split: if_splits)

lemma isoInstant_formatISO: "validTime t \<Longrightarrow> isoInstant (formatISO t)"
  by (simp add: isoInstant_def parseISO_formatISO)

lemma isoInstant_iff: "isoInstant s \<longleftrightarrow> (\<exists>t. validTime t \<and> s = formatISO t)"
  unfolding isoInstant_def using parseISO_Some parseISO_formatISO by fastforce

lemma dateParse_formatISO: "validTime t \<Longrightarrow> dateParse lp (formatISO t) = Some t"
  by (simp add: dateParse_def parseISO_formatISO)

lemma dateParse_valid: "dateParse lp s = Some t \<Longrightarrow> validTime t"
  by (auto simp: dateParse_def dest: parseISO_Some split: option.splits if_splits)

lemmas iso_eval = formatISO_def formatFields_def civilFromDays_def civilOfEra_def civilOfCentury_def
  civilOfCycle_def civilOfFour_def civilOfYearDay_def monthDay_def yearString_def digit_def
  pad2_def pad3_def pad4_def pad6_def

section \<open>Properties of the timestamp normalizer\<close>

lemma toISOString_cases:
  "toISOString tv = Inl RangeError \<or> (\<exists>t. validTime t \<and> toISOString tv = Inr (formatISO t))"
  by (cases tv) (auto simp: toISOString_def)

lemma safeParseTimestampTry_cases:
  "(\<exists>ex. safeParseTimestampTry now lp v = Inl ex)
   \<or> safeParseTimestampTry now lp v = Inr (formatISO now)
   \<or> (\<exists>t. validTime t \<and> (\<forall>now'. safeParseTimestampTry now' lp v = Inr (formatISO t)))"
proof (cases v)
  case (JNumber x)
  then show ?thesis
    using toISOString_cases [of "timeClip (if numGreater x 100000000000 then x else numTimes x 1000)"]
    by (auto simp: safeParseTimestampTry_def)
next
  case (JString s)
  show ?thesis
  proof (cases "dateParse lp s")
    case None
    then show ?thesis using JString by (simp add: safeParseTimestampTry_def)
  next
    case (Some t)
    then have "validTime t" by (rule dateParse_valid)
    then show ?thesis using JString Some
      by (auto simp: safeParseTimestampTry_def toISOString_def)
  qed
next
  case (JDate tv)
  then show ?thesis
    using toISOString_cases [of tv] by (auto simp: safeParseTimestampTry_def)
qed (simp_all add: safeParseTimestampTry_def)

lemma safeParseTimestamp_cases:
  "safeParseTimestamp now lp v = formatISO now
   \<or> (\<exists>t. validTime t \<and> (\<forall>now'. safeParseTimestamp now' lp v = formatISO t))"
  using safeParseTimestampTry_cases [of now lp v]
  by (auto simp: safeParseTimestamp_def)

lemma safeParseTimestamp_iso:
  assumes "validTime now"
  shows "isoInstant (safeParseTimestamp now lp v)"
  using safeParseTimestamp_cases [of now lp v] assms
  by (auto simp: isoInstant_formatISO)

lemma safeParseTimestamp_of_iso:
  assumes "isoInstant s"
  shows "safeParseTimestamp now lp (JString s) = s"
proof -
  from assms obtain t where t: "validTime t" "s = formatISO t"
    unfolding isoInstant_iff by blast
  then show ?thesis
    by (simp add: safeParseTimestamp_def safeParseTimestampTry_def dateParse_formatISO toISOString_def)
qed

lemma timeClip_int:
  assumes "\<bar>r\<bar> \<le> 8640000000000000"
  shows "timeClip (Fin (of_int r)) = Some r"
proof -
  have "rat_of_int \<bar>r\<bar> \<le> rat_of_int 8640000000000000" using assms by (simp only: of_int_le_iff)
  then have "\<not> \<bar>rat_of_int r\<bar> > 8640000000000000" by simp
  then show ?thesis by (simp add: timeClip_def truncateRat_def)
qed

section \<open>Claims about the timestamp normalizer\<close>

text \<open>
  Claim C2 (timestamp boundary), as stated: the number 100,000,000,000 is read as
  milliseconds and 99,999,999,999 as seconds. The test of the code is the strict
  \<^verbatim>\<open>timestamp > 100000000000\<close>, so the number 100,000,000,000 itself is read as seconds: the
  normalizer gives an instant of the year 5138, not the instant of 1973 that the
  millisecond reading would give.
\<close>

theorem timestamp_boundary_counterexample:
  "safeParseTimestamp 0 noLegacyParse (JNumber (Fin 100000000000)) = ''5138-11-16T09:46:40.000Z''
   \<and> safeParseTimestamp 0 noLegacyParse (JNumber (Fin 100000000000)) \<noteq> formatISO 100000000000"
proof -
  have a: "safeParseTimestamp 0 noLegacyParse (JNumber (Fin 100000000000)) = formatISO 100000000000000"
    using timeClip_int [of 100000000000000]
    by (simp add: safeParseTimestamp_def safeParseTimestampTry_def numGreater_def numTimes_def
        toISOString_def validTime_def maxTime_def)
  have b: "formatISO 100000000000000 = ''5138-11-16T09:46:40.000Z''" by (simp add: iso_eval)
  have c: "formatISO 100000000000 = ''1973-03-03T09:46:40.000Z''" by (simp add: iso_eval)
  show ?thesis unfolding a b c by simp
qed

text \<open>
  Claim C2, as amended: 100,000,000,000 and 99,999,999,999 are both read as seconds since the
  epoch (multiplied by 1000), and 100,000,000,001 is the first integer read as milliseconds;
  the resulting instants lie in the years 5138, 5138 and 1973.
\<close>

theorem timestamp_boundary:
  "safeParseTimestamp now lp (JNumber (Fin 100000000000)) = formatISO (100000000000 * 1000)
   \<and> safeParseTimestamp now lp (JNumber (Fin 99999999999)) = formatISO (99999999999 * 1000)
   \<and> safeParseTimestamp now lp (JNumber (Fin 100000000001)) = formatISO 100000000001
   \<and> formatISO (100000000000 * 1000) = ''5138-11-16T09:46:40.000Z''
   \<and> formatISO (99999999999 * 1000) = ''5138-11-16T09:46:39.000Z''
   \<and> formatISO 100000000001 = ''1973-03-03T09:46:40.001Z''"
proof -
  have a: "safeParseTimestamp now lp (JNumber (Fin 100000000000)) = formatISO (100000000000 * 1000)"
    using timeClip_int [of 100000000000000]
    by (simp add: safeParseTimestamp_def safeParseTimestampTry_def numGreater_def numTimes_def
        toISOString_def validTime_def maxTime_def)
  have b: "safeParseTimestamp now lp (JNumber (Fin 99999999999)) = formatISO (99999999999 * 1000)"
    using timeClip_int [of 99999999999000]
    by (simp add: safeParseTimestamp_def safeParseTimestampTry_def numGreater_def numTimes_def
        toISOString_def validTime_def maxTime_def)
  have c: "safeParseTimestamp now lp (JNumber (Fin 100000000001)) = formatISO 100000000001"
    using timeClip_int [of 100000000001]
    by (simp add: safeParseTimestamp_def safeParseTimestampTry_def numGreater_def numTimes_def
        toISOString_def validTime_def maxTime_def)
  have d: "formatISO (100000000000 * 1000) = ''5138-11-16T09:46:40.000Z''" by (simp add: iso_eval)
  have e: "formatISO (99999999999 * 1000) = ''5138-11-16T09:46:39.000Z''" by (simp add: iso_eval)
  have f: "formatISO 100000000001 = ''1973-03-03T09:46:40.001Z''" by (simp add: iso_eval)
  show ?thesis using a b c d e f by blast
qed

text \<open>
  Claim C9 (idempotence of normalization), as stated: two applications of the normalizer to
  one input give equal results, for every input. For an absent input the result is the
  reading of the clock at the call, so two calls at different times differ.
\<close>

theorem normalize_twice_counterexample:
  "safeParseTimestamp 0 noLegacyParse JUndefined \<noteq> safeParseTimestamp 1 noLegacyParse JUndefined"
proof -
  have "formatISO 0 = ''1970-01-01T00:00:00.000Z''" by (simp add: iso_eval)
  moreover have "formatISO 1 = ''1970-01-01T00:00:00.001Z''" by (simp add: iso_eval)
  ultimately show ?thesis by (simp add: safeParseTimestamp_def safeParseTimestampTry_def)
qed

text \<open>
  Claim C9, as amended: for every raw timestamp value, either the result does not depend on
  the time of the call (two applications give equal results), or the value is one the
  normalizer cannot read and every result is the time of its own call; and normalizing an
  output of the normalizer gives that output back, whatever the time of the second call.
\<close>

theorem normalize_twice:
  "((\<forall>now1 now2. safeParseTimestamp now1 lp v = safeParseTimestamp now2 lp v)
     \<or> (\<forall>now. safeParseTimestamp now lp v = formatISO now))
   \<and> (validTime now \<longrightarrow>
        safeParseTimestamp now' lp (JString (safeParseTimestamp now lp v)) = safeParseTimestamp now lp v)"
proof -
  have "(\<forall>now1 now2. safeParseTimestamp now1 lp v = safeParseTimestamp now2 lp v)
     \<or> (\<forall>now. safeParseTimestamp now lp v = formatISO now)"
  proof (cases "\<forall>now. safeParseTimestamp now lp v = formatISO now")
    case True
    then show ?thesis by blast
  next
    case False
    then obtain n where "safeParseTimestamp n lp v \<noteq> formatISO n" by blast
    with safeParseTimestamp_cases [of n lp v]
    obtain t where "\<forall>now'. safeParseTimestamp now' lp v = formatISO t" by blast
    then show ?thesis by simp
  qed
  moreover have "validTime now \<longrightarrow>
        safeParseTimestamp now' lp (JString (safeParseTimestamp now lp v)) = safeParseTimestamp now lp v"
    using safeParseTimestamp_of_iso [OF safeParseTimestamp_iso] by blast
  ultimately show ?thesis by blast
qed

theorem normalize_twice_witness:
  "validTime 0 \<and> safeParseTimestamp 5 noLegacyParse (JString (safeParseTimestamp 0 noLegacyParse JUndefined))
      = safeParseTimestamp 0 noLegacyParse JUndefined
   \<and> safeParseTimestamp 0 noLegacyParse JUndefined = ''1970-01-01T00:00:00.000Z''"
proof -
  have v: "validTime 0" by (simp add: validTime_def maxTime_def)
  have "formatISO 0 = ''1970-01-01T00:00:00.000Z''" by (simp add: iso_eval)
  then have "safeParseTimestamp 0 noLegacyParse JUndefined = ''1970-01-01T00:00:00.000Z''"
    by (simp add: safeParseTimestamp_def safeParseTimestampTry_def)
  then show ?thesis
    using v normalize_twice [of noLegacyParse JUndefined 0 5] by simp
qed

section \<open>Evaluation on the sample inputs\<close>

lemmas js_eval = truthy_def jsOr_def truthyS_def orS_def orEmpty_def isJsSpace_def trim_def nthOpt_def
  contentOf_def createBubble_def titleOr_def defaultTitle_def firstLine_def getOrEmpty_def

lemmas stamp_eval = stampAt_def safeParseTimestamp_def safeParseTimestampTry_def toISOString_def
  timeClip_def truncateRat_def numGreater_def numTimes_def validTime_def maxTime_def dateParse_def

lemmas pass_eval = processTab_def tabConversation_def chatResultBubble_def processComposer_def
  saveHeaderOrder_def messagesSource_def mergeConversation_def newConversation_def composerMessageBubble_def
  processGlobalBubble_def admitGlobal_def unifyGlobal_def metaConversation_def globalBubble_def

lemmas consolidate_eval = consolidate_def toResponse_def finalMessages_def orderBubbles_def
  uniqueBubbles_def sameBubble_def headerCompare_def headerIndex_def jsSort_def compareLastUpdated_def

lemmas route_eval = fetchConversationsForWorkspace_def GET_def reconcile_def afterQueries_def hasValue_def
  ingestChatTabs_def ingestGlobal_def ingestComposers_def scanGlobalBubbles_def finallyClose_def
  initialState_def

lemma stamp1: "stampAt sampleEnv n (JNumber (Fin 1700000000)) = ''2023-11-14T22:13:20.000Z''"
  by (simp add: stamp_eval iso_eval sampleEnv_def)

lemma parse1: "dateParse noLegacyParse ''2023-11-14T22:13:20.000Z'' = Some 1700000000000"
  by (simp add: dateParse_def parseISO_def isoCandidate_def timeFromFields_def numVal_def digitVal_def
        daysFromCivil_def daysOfMarchYear_def validTime_def maxTime_def iso_eval)

lemma stamp2: "stampAt sampleEnv 0 JUndefined = ''2023-11-14T22:13:20.000Z''"
  by (simp add: stamp_eval iso_eval sampleEnv_def)

lemma fetch_sample: "fetchConversationsForWorkspace sampleEnv sampleStore = Inr sampleResult"
  by (simp add: route_eval pass_eval consolidate_eval js_eval stamp1 stamp2
      sampleStore_def ownRows_def sampleMeta_def userBubble_def assistantBubble_def
      sampleResult_def questionMsg_def answerMsg_def)

lemma validTime_sample: "validTime (clock sampleEnv n)"
  by (simp add: sampleEnv_def validTime_def maxTime_def)

lemma stamp3: "stampAt sampleEnv n (JString ''2023-11-14T22:13:20.000Z'') = ''2023-11-14T22:13:20.000Z''"
proof -
  have "formatISO 1700000000000 = ''2023-11-14T22:13:20.000Z''" by (simp add: iso_eval)
  moreover have "validTime 1700000000000" by (simp add: validTime_def maxTime_def)
  ultimately have "isoInstant ''2023-11-14T22:13:20.000Z''" using isoInstant_formatISO by metis
  then show ?thesis unfolding stampAt_def by (rule safeParseTimestamp_of_iso)
qed

lemma fetch_merge: "fetchConversationsForWorkspace sampleEnv mergeStore = Inr mergedResult"
  by (simp add: route_eval pass_eval consolidate_eval js_eval stamp1 stamp3
      mergeStore_def sampleTab_def sampleComposer_def mergedResult_def hiMsg_def)

lemma fetch_fail: "fetchConversationsForWorkspace sampleEnv failStore = Inr tabResult"
  by (simp add: route_eval pass_eval consolidate_eval js_eval stamp1
      failStore_def mergeStore_def sampleTab_def tabResult_def hiMsg_def)

section \<open>Properties of the three passes\<close>

lemma trim_empty_iff: "trim s = [] \<longleftrightarrow> (\<forall>c\<in>set s. isJsSpace c)"
proof
  assume "trim s = []"
  then have a: "\<forall>x\<in>set (dropWhile isJsSpace s). isJsSpace x"
    by (simp add: trim_def dropWhile_eq_Nil_conv)
  have "dropWhile isJsSpace s = []"
  proof (rule ccontr)
    assume ne: "dropWhile isJsSpace s \<noteq> []"
    then have "\<not> isJsSpace (hd (dropWhile isJsSpace s))" by (rule hd_dropWhile)
    moreover have "hd (dropWhile isJsSpace s) \<in> set (dropWhile isJsSpace s)" using ne by simp
    ultimately show False using a by blast
  qed
  then show "\<forall>c\<in>set s. isJsSpace c" by (simp add: dropWhile_eq_Nil_conv)
next
  assume "\<forall>c\<in>set s. isJsSpace c"
  then have d: "dropWhile isJsSpace s = []" by (simp add: dropWhile_eq_Nil_conv)
  show "trim s = []" unfolding trim_def d by simp
qed

lemma processGlobalBubble_ids [simp]:
  "workspaceComposerIds (processGlobalBubble e metas st row) = workspaceComposerIds st"
  by (auto simp: processGlobalBubble_def admitGlobal_def unifyGlobal_def Let_def
      split: option.splits)

lemma scan_ids [simp]:
  "workspaceComposerIds (foldl (processGlobalBubble e metas) st rows) = workspaceComposerIds st"
  by (induction rows arbitrary: st) simp_all

lemma processGlobalBubble_foreign:
  assumes "nthOpt (splitOn CHR '':'' key) 1 = Some cid" "cid \<notin> workspaceComposerIds st"
  shows "processGlobalBubble e metas st (key, v) = st"
  using assms by (auto simp: processGlobalBubble_def nthOpt_def split: option.splits if_splits)

lemma processGlobalBubble_blank:
  assumes "trim (contentOf (gbText bd) (gbRichText bd)) = []"
  shows "processGlobalBubble e metas st (key, Some bd) = st"
  using assms by (simp add: processGlobalBubble_def admitGlobal_def globalBubble_def)

lemma scan_skip:
  assumes "processGlobalBubble e metas (foldl (processGlobalBubble e metas) st xs) r
           = foldl (processGlobalBubble e metas) st xs"
  shows "foldl (processGlobalBubble e metas) st (xs @ r # ys) = foldl (processGlobalBubble e metas) st (xs @ ys)"
  using assms by simp

lemma processTab_ids [simp]: "workspaceComposerIds (processTab e st tab) = workspaceComposerIds st"
  by (simp add: processTab_def)

lemma tabs_ids [simp]: "workspaceComposerIds (foldl (processTab e) st ts) = workspaceComposerIds st"
  by (induction ts arbitrary: st) simp_all

lemma processComposer_ids [simp]:
  "workspaceComposerIds (processComposer e st c) = workspaceComposerIds st"
  by (simp add: processComposer_def)

lemma composers_ids [simp]:
  "workspaceComposerIds (foldl (processComposer e) st cs) = workspaceComposerIds st"
  by (induction cs arbitrary: st) simp_all

lemma ingestChatTabs_ids:
  "ingestChatTabs e chat st = Inr st' \<Longrightarrow> workspaceComposerIds st' = workspaceComposerIds st"
  by (auto simp: ingestChatTabs_def split: option.splits blob.splits)

lemma ingestComposers_ids:
  "ingestComposers e io metas st = Inr st' \<Longrightarrow> workspaceComposerIds st' = workspaceComposerIds st"
  by (auto simp: ingestComposers_def split: option.splits sum.splits if_splits)

lemma ingestComposers_rows [simp]:
  "ingestComposers e (io\<lparr>globalRawBubbles := rows\<rparr>) metas st = ingestComposers e io metas st"
  by (simp add: ingestComposers_def)

lemma finallyClose_rows [simp]:
  "finallyClose (io\<lparr>globalRawBubbles := rows\<rparr>) g r = finallyClose io g r"
  by (auto simp: finallyClose_def split: option.splits)

text \<open>The scan over a store with one more record whose effect is nil.\<close>

lemma scanGlobalBubbles_drop:
  assumes "globalRawBubbles io = Inr (xs @ r # ys)"
    and "\<And>st'. workspaceComposerIds st' = workspaceComposerIds st \<Longrightarrow> processGlobalBubble e metas st' r = st'"
  shows "scanGlobalBubbles e io metas st = scanGlobalBubbles e (io\<lparr>globalRawBubbles := Inr (xs @ ys)\<rparr>) metas st"
  using assms by (simp add: scanGlobalBubbles_def)

lemma ingestGlobal_drop:
  assumes "globalRawBubbles io = Inr (xs @ r # ys)"
    and "\<And>md st'. v = Parsed md \<Longrightarrow>
          workspaceComposerIds st' = workspaceComposerIds st \<union> set (map metaComposerId (allComposers md))
          \<Longrightarrow> processGlobalBubble e (allComposers md) st' r = st'"
  shows "ingestGlobal e io v st = ingestGlobal e (io\<lparr>globalRawBubbles := Inr (xs @ ys)\<rparr>) v st"
proof (cases v)
  case (Parsed md)
  let ?st1 = "st\<lparr>workspaceComposerIds := workspaceComposerIds st \<union> set (map metaComposerId (allComposers md))\<rparr>"
  show ?thesis
  proof (cases "ingestComposers e io (allComposers md) ?st1")
    case (Inl ex)
    then show ?thesis using Parsed by (simp add: ingestGlobal_def)
  next
    case (Inr st2)
    have ids: "workspaceComposerIds st2 = workspaceComposerIds st \<union> set (map metaComposerId (allComposers md))"
      using ingestComposers_ids [OF Inr] by simp
    have "scanGlobalBubbles e io (allComposers md) st2
        = scanGlobalBubbles e (io\<lparr>globalRawBubbles := Inr (xs @ ys)\<rparr>) (allComposers md) st2"
      by (rule scanGlobalBubbles_drop [OF assms(1)]) (simp add: assms(2) [OF Parsed] ids)
    then show ?thesis using Parsed Inr by (simp add: ingestGlobal_def)
  qed
qed (simp_all add: ingestGlobal_def)

lemma reconcile_drop:
  assumes "globalRawBubbles io = Inr (xs @ r # ys)"
    and "\<And>md st'. composerGet io = Inr (Some (Parsed md)) \<Longrightarrow>
          workspaceComposerIds st' = set (map metaComposerId (allComposers md))
          \<Longrightarrow> processGlobalBubble e (allComposers md) st' r = st'"
  shows "reconcile e io c = reconcile e (io\<lparr>globalRawBubbles := Inr (xs @ ys)\<rparr>) c"
proof (cases "chatGet io")
  case (Inl ex)
  then show ?thesis by (simp add: reconcile_def)
next
  case chat: (Inr chatResult)
  show ?thesis
  proof (cases "composerGet io")
    case (Inl ex)
    then show ?thesis using chat by (simp add: reconcile_def)
  next
    case comp: (Inr cm)
    show ?thesis
    proof (cases "ingestChatTabs e chatResult initialState")
      case (Inl ex)
      then show ?thesis using chat comp by (simp add: reconcile_def afterQueries_def)
    next
      case (Inr st1)
      have ids: "workspaceComposerIds st1 = {}"
        using ingestChatTabs_ids [OF Inr] by (simp add: initialState_def)
      have "ingestGlobal e io v st1 = ingestGlobal e (io\<lparr>globalRawBubbles := Inr (xs @ ys)\<rparr>) v st1"
        if "cm = Some v" for v
        by (rule ingestGlobal_drop [OF assms(1)]) (simp add: assms(2) comp that ids)
      then show ?thesis using chat comp Inr
        by (auto simp: reconcile_def afterQueries_def hasValue_def split: option.splits)
    qed
  qed
qed

lemma routes_drop:
  assumes "\<And>c. reconcile e io c = reconcile e (io\<lparr>globalRawBubbles := rows\<rparr>) c"
  shows "fetchConversationsForWorkspace e io = fetchConversationsForWorkspace e (io\<lparr>globalRawBubbles := rows\<rparr>)"
    and "GET e io = GET e (io\<lparr>globalRawBubbles := rows\<rparr>)"
  by (auto simp: fetchConversationsForWorkspace_def GET_def assms [symmetric]
      split: option.splits prod.splits sum.splits)

lemma processComposer_existing:
  assumes "map_of (allConversationsMap st) (composerId c) = Some old"
  shows "map_of (allConversationsMap (processComposer e st c)) (composerId c)
           = Some (mergeConversation e (clockReads st) c old)"
    and "map fst (allConversationsMap (processComposer e st c)) = map fst (allConversationsMap st)"
proof -
  show "map_of (allConversationsMap (processComposer e st c)) (composerId c)
           = Some (mergeConversation e (clockReads st) c old)"
    using assms by (simp add: processComposer_def update_conv')
  have "composerId c \<in> fst ` set (allConversationsMap st)"
    using assms by (metis domI dom_map_of_conv_image_fst)
  then show "map fst (allConversationsMap (processComposer e st c)) = map fst (allConversationsMap st)"
    by (simp add: processComposer_def update_keys)
qed

section \<open>Properties of the consolidation\<close>

lemma sameBubble_refl [simp]: "sameBubble b b"
  by (simp add: sameBubble_def)

lemma sameBubble_sym: "sameBubble a b \<longleftrightarrow> sameBubble b a"
  by (auto simp: sameBubble_def)

lemma sameBubble_trans: "sameBubble a b \<Longrightarrow> sameBubble b c \<Longrightarrow> sameBubble a c"
  by (auto simp: sameBubble_def)

lemma sameBubble_key: "sameBubble a b \<longleftrightarrow> (role a, content a) = (role b, content b)"
  by (auto simp: sameBubble_def)

lemma findIndex_ge: "- 1 \<le> findIndex P xs"
  by (induction xs) auto

lemma findIndex_miss: "(\<forall>x\<in>set xs. \<not> P x) \<Longrightarrow> findIndex P xs = - 1"
  by (induction xs) auto

lemma findIndex_hit: "x \<in> set xs \<Longrightarrow> P x \<Longrightarrow> 0 \<le> findIndex P xs \<and> findIndex P xs < int (length xs)"
  by (induction xs) auto

lemma findIndex_append:
  "findIndex P (pre @ ys) =
     (if \<exists>p\<in>set pre. P p then findIndex P pre
      else if findIndex P ys < 0 then - 1 else int (length pre) + findIndex P ys)"
proof (induction pre)
  case Nil
  show ?case using findIndex_ge [of P ys] by auto
next
  case (Cons a pre)
  show ?case using Cons findIndex_hit [of _ pre P] findIndex_ge [of P ys]
    by (auto simp: findIndex_miss)
qed

lemma keep_at:
  "int (length pre) = findIndex (sameBubble x) (pre @ x # xs) \<longleftrightarrow> \<not> (\<exists>p\<in>set pre. sameBubble x p)"
proof (cases "\<exists>p\<in>set pre. sameBubble x p")
  case True
  then obtain p where p: "p \<in> set pre" "sameBubble x p" by blast
  have "findIndex (sameBubble x) (pre @ x # xs) = findIndex (sameBubble x) pre"
    using True by (simp add: findIndex_append)
  then show ?thesis using findIndex_hit [of p pre "sameBubble x"] p by auto
next
  case False
  then show ?thesis by (simp add: findIndex_append)
qed

lemma unique_from:
  "map snd (filter (\<lambda>ib. int (fst ib) = findIndex (sameBubble (snd ib)) (pre @ xs)) (enumerate (length pre) xs))
   = firstOccurrences pre xs"
proof (induction xs arbitrary: pre)
  case Nil
  show ?case by simp
next
  case (Cons x xs)
  have "map snd (filter (\<lambda>ib. int (fst ib) = findIndex (sameBubble (snd ib)) ((pre @ [x]) @ xs))
          (enumerate (length (pre @ [x])) xs)) = firstOccurrences (pre @ [x]) xs"
    by (rule Cons.IH)
  then show ?case using keep_at [of pre x xs] by simp
qed

lemma uniqueBubbles_firstOccurrences: "uniqueBubbles xs = firstOccurrences [] xs"
  using unique_from [of "[]" xs] by (simp add: uniqueBubbles_def)

lemma firstOccurrences_fresh:
  "b \<in> set (firstOccurrences seen xs) \<Longrightarrow> b \<in> set xs \<and> (\<forall>p\<in>set seen. \<not> sameBubble b p)"
  by (induction xs arbitrary: seen) (auto split: if_splits)

lemma firstOccurrences_distinct:
  "distinct (map (\<lambda>b. (role b, content b)) (firstOccurrences seen xs))"
proof (induction xs arbitrary: seen)
  case Nil
  show ?case by simp
next
  case (Cons x xs)
  have "(role x, content x) \<notin> (\<lambda>b. (role b, content b)) ` set (firstOccurrences (seen @ [x]) xs)"
  proof
    assume "(role x, content x) \<in> (\<lambda>b. (role b, content b)) ` set (firstOccurrences (seen @ [x]) xs)"
    then obtain b where b: "b \<in> set (firstOccurrences (seen @ [x]) xs)" "(role b, content b) = (role x, content x)"
      by auto
    from firstOccurrences_fresh [OF b(1)] have "\<not> sameBubble b x" by simp
    then show False using b(2) by (simp add: sameBubble_key)
  qed
  then show ?case using Cons.IH [of "seen @ [x]"] by simp
qed

lemma firstOccurrences_subseq: "subseq (firstOccurrences seen xs) xs"
  by (induction xs arbitrary: seen) auto

lemma firstOccurrences_find:
  assumes "b \<in> set (firstOccurrences seen xs)"
  shows "find (sameBubble b) xs = Some b"
  using assms
proof (induction xs arbitrary: seen)
  case Nil
  then show ?case by simp
next
  case (Cons x xs)
  show ?case
  proof (cases "sameBubble b x")
    case True
    have "b = x"
    proof (rule ccontr)
      assume "b \<noteq> x"
      then have "b \<in> set (firstOccurrences (seen @ [x]) xs)" using Cons.prems by (auto split: if_splits)
      from firstOccurrences_fresh [OF this] show False using True by simp
    qed
    then show ?thesis by simp
  next
    case False
    then have "b \<in> set (firstOccurrences (seen @ [x]) xs)" using Cons.prems by (auto split: if_splits)
    then show ?thesis using Cons.IH False by simp
  qed
qed

lemma firstOccurrences_covers:
  assumes "x \<in> set xs" "\<forall>p\<in>set seen. \<not> sameBubble x p"
  shows "\<exists>b\<in>set (firstOccurrences seen xs). sameBubble x b"
  using assms
proof (induction xs arbitrary: seen)
  case Nil
  then show ?case by simp
next
  case (Cons y ys)
  show ?case
  proof (cases "sameBubble x y")
    case True
    then have fresh: "\<not> (\<exists>p\<in>set seen. sameBubble y p)"
      using Cons.prems(2) sameBubble_trans by blast
    then show ?thesis using True by auto
  next
    case False
    then have "x \<in> set ys" "\<forall>p\<in>set (seen @ [y]). \<not> sameBubble x p" using Cons.prems by auto
    from Cons.IH [OF this] show ?thesis by auto
  qed
qed

text \<open>The sort is a permutation; with a comparison that follows a key it is the stable sort by that key.\<close>

lemma mset_insertBy [simp]: "mset (insertBy cmp x ys) = add_mset x (mset ys)"
  by (induction ys) auto

lemma mset_jsSort [simp]: "mset (jsSort cmp xs) = mset xs"
  by (induction xs) (simp_all add: jsSort_def)

lemma set_jsSort [simp]: "set (jsSort cmp xs) = set xs"
  by (metis mset_jsSort set_mset_mset)

lemma length_jsSort [simp]: "length (jsSort cmp xs) = length xs"
  by (metis mset_jsSort size_mset)

lemma insertBy_insort_key:
  assumes "\<And>a b. cmp a b \<le> 0 \<longleftrightarrow> f a \<le> f b"
  shows "insertBy cmp x ys = insort_key f x ys"
  by (induction ys) (simp_all add: assms)

lemma jsSort_sort_key:
  assumes "\<And>a b. cmp a b \<le> 0 \<longleftrightarrow> f a \<le> (f b :: 'k :: linorder)"
  shows "jsSort cmp xs = sort_key f xs"
proof -
  have "insertBy cmp = insort_key f" using insertBy_insort_key [OF assms] by (intro ext)
  then show ?thesis by (simp add: jsSort_def sort_key_def)
qed

lemma stage_map_filter: "stage f acc xs = acc @ List.map_filter f xs"
  by (induction xs arbitrary: acc) (simp_all add: List.map_filter_simps split: option.splits)

lemma set_stage: "set (stage f [] xs) = {y. \<exists>x\<in>set xs. f x = Some y}"
  by (force simp: stage_map_filter List.map_filter_def)

lemma consolidate_elem:
  assumes "c \<in> set (consolidate e st)"
  shows "\<exists>tc. tc \<in> snd ` set (allConversationsMap st) \<and> toResponse st tc = Some c"
  using assms by (auto simp: consolidate_def set_stage)

lemma toResponse_Some:
  assumes "toResponse st tc = Some c"
  shows "respMessages c = finalMessages st (convId tc) \<and> respMessages c \<noteq> []
         \<and> respId c = convId tc \<and> respName c = title tc \<and> respSummary c = summary tc
         \<and> respCreatedAt c = convCreatedAt tc \<and> respLastUpdatedAt c = convLastUpdatedAt tc"
  using assms by (auto simp: toResponse_def split: if_splits)

lemma fetch_result:
  assumes "fetchConversationsForWorkspace e io = Inr cs"
  shows "cs = [] \<or> (\<exists>st. cs = consolidate e st)"
  using assms
  by (auto simp: fetchConversationsForWorkspace_def finallyClose_def
      split: if_splits option.splits prod.splits sum.splits)

lemma GET_result:
  assumes "GET e io = Inr (Conversations cs)"
  shows "\<exists>st. cs = consolidate e st"
  using assms
  by (auto simp: GET_def finallyClose_def
      split: if_splits option.splits prod.splits sum.splits)

lemma orderBubbles_mset [simp]: "mset (orderBubbles hm xs) = mset xs"
  by (simp add: orderBubbles_def split: option.splits)

lemma finalMessages_distinct:
  "distinct (map (\<lambda>b. (role b, content b)) (finalMessages st cid))"
proof -
  let ?u = "uniqueBubbles (getOrEmpty (allBubblesMap st) cid)"
  have "mset (map (\<lambda>b. (role b, content b)) (finalMessages st cid)) = mset (map (\<lambda>b. (role b, content b)) ?u)"
    by (simp add: finalMessages_def)
  moreover have "distinct (map (\<lambda>b. (role b, content b)) ?u)"
    by (simp add: uniqueBubbles_firstOccurrences firstOccurrences_distinct)
  ultimately show ?thesis by (metis mset_eq_imp_distinct_iff)
qed

text \<open>The header comparison follows a key: hinted messages by their hint, then the others.\<close>

lemma headerCompare_rank:
  "headerCompare hm a b \<le> 0 \<longleftrightarrow>
     (case headerIndex hm a of Some i \<Rightarrow> (False, i) | None \<Rightarrow> (True, 0))
       \<le> (case headerIndex hm b of Some i \<Rightarrow> (False, i) | None \<Rightarrow> (True, 0))"
  by (auto simp: headerCompare_def split: option.splits)

lemma orderBubbles_sort_key:
  assumes "hm \<noteq> []"
  shows "orderBubbles (Some hm) xs
         = sort_key (\<lambda>b. case headerIndex hm b of Some i \<Rightarrow> (False, i) | None \<Rightarrow> (True, 0)) xs"
  using assms jsSort_sort_key [of "headerCompare hm", OF headerCompare_rank]
  by (simp add: orderBubbles_def)

lemma orderBubbles_sorted:
  assumes "hm \<noteq> []"
  shows "sorted_wrt (\<lambda>a b. (headerIndex hm a = None \<longrightarrow> headerIndex hm b = None)
            \<and> (\<forall>i j. headerIndex hm a = Some i \<and> headerIndex hm b = Some j \<longrightarrow> i \<le> j))
          (orderBubbles (Some hm) xs)"
proof -
  let ?f = "\<lambda>b. case headerIndex hm b of Some i \<Rightarrow> (False, i) | None \<Rightarrow> (True, 0::nat)"
  have "sorted (map ?f (sort_key ?f xs))" by (rule sorted_sort_key)
  then have "sorted_wrt (\<lambda>a b. ?f a \<le> ?f b) (sort_key ?f xs)" by (simp add: sorted_map)
  then have "sorted_wrt (\<lambda>a b. (headerIndex hm a = None \<longrightarrow> headerIndex hm b = None)
            \<and> (\<forall>i j. headerIndex hm a = Some i \<and> headerIndex hm b = Some j \<longrightarrow> i \<le> j)) (sort_key ?f xs)"
    by (rule sorted_wrt_mono_rel [rotated]) (auto split: option.splits)
  then show ?thesis by (simp add: orderBubbles_sort_key [OF assms])
qed

lemma orderBubbles_stable:
  assumes "hm \<noteq> []"
  shows "filter (\<lambda>b. headerIndex hm b = k) (orderBubbles (Some hm) xs) = filter (\<lambda>b. headerIndex hm b = k) xs"
proof -
  let ?f = "\<lambda>b. case headerIndex hm b of Some i \<Rightarrow> (False, i) | None \<Rightarrow> (True, 0::nat)"
  have eq: "(headerIndex hm b = k) = (?f b = (case k of Some i \<Rightarrow> (False, i) | None \<Rightarrow> (True, 0)))" for b
    by (auto split: option.splits)
  show ?thesis
    unfolding orderBubbles_sort_key [OF assms] eq by (rule sort_key_stable)
qed

section \<open>Well-formed timestamps through the passes\<close>

lemma update_member:
  "p \<in> set (AList.update k v al) \<Longrightarrow> p = (k, v) \<or> p \<in> set al"
  by (induction al) (auto split: if_splits)

lemma stampsOk_update:
  assumes "stampsOk convs" "isoInstant (convLastUpdatedAt v)" "isoInstant (convCreatedAt v)"
  shows "stampsOk (AList.update k v convs)"
  using assms update_member [of _ k v convs] by (fastforce simp: stampsOk_def)

lemma stampsOk_lookup:
  assumes "stampsOk convs" "map_of convs k = Some c"
  shows "isoInstant (convLastUpdatedAt c) \<and> isoInstant (convCreatedAt c)"
proof -
  have "(k, c) \<in> set convs" using assms(2) by (rule map_of_SomeD)
  then have "c \<in> snd ` set convs" by force
  then show ?thesis using assms(1) by (auto simp: stampsOk_def)
qed

lemma stampAt_iso: "\<forall>n. validTime (clock e n) \<Longrightarrow> isoInstant (stampAt e n v)"
  by (simp add: stampAt_def safeParseTimestamp_iso)

lemma processTab_stampsOk:
  assumes "\<forall>n. validTime (clock e n)" "stampsOk (allConversationsMap st)"
  shows "stampsOk (allConversationsMap (processTab e st tab))"
  using assms by (simp add: processTab_def stampsOk_update tabConversation_def stampAt_iso)

lemma processComposer_stampsOk:
  assumes "\<forall>n. validTime (clock e n)" "stampsOk (allConversationsMap st)"
  shows "stampsOk (allConversationsMap (processComposer e st c))"
  using assms
  by (auto simp: processComposer_def mergeConversation_def newConversation_def stampAt_iso
      intro!: stampsOk_update split: option.splits)

lemma unifyGlobal_stampsOk:
  assumes "\<forall>n. validTime (clock e n)" "stampsOk (allConversationsMap st)"
  shows "stampsOk (allConversationsMap (unifyGlobal e metas cid st))"
proof (cases "map_of (allConversationsMap st) cid")
  case None
  then show ?thesis using assms
    by (simp add: unifyGlobal_def metaConversation_def stampAt_iso stampsOk_update)
next
  case (Some conv)
  from stampsOk_lookup [OF assms(2) Some] have "isoInstant (convCreatedAt conv)" by simp
  then show ?thesis using assms Some
    by (auto simp: unifyGlobal_def stampAt_iso intro!: stampsOk_update split: option.splits)
qed

lemma processGlobalBubble_stampsOk:
  assumes "\<forall>n. validTime (clock e n)" "stampsOk (allConversationsMap st)"
  shows "stampsOk (allConversationsMap (processGlobalBubble e metas st row))"
proof -
  have "stampsOk (allConversationsMap (admitGlobal e metas st cid kp bd))" for cid kp bd
    using assms by (auto simp: admitGlobal_def intro!: unifyGlobal_stampsOk split: option.splits)
  then show ?thesis using assms(2)
    by (simp add: processGlobalBubble_def split: option.splits)
qed

lemma fold_stampsOk:
  assumes "\<And>st x. stampsOk (allConversationsMap st) \<Longrightarrow> stampsOk (allConversationsMap (f st x))"
    and "stampsOk (allConversationsMap st)"
  shows "stampsOk (allConversationsMap (foldl f st xs))"
  using assms(2) by (induction xs arbitrary: st) (simp_all add: assms(1))

lemma reconcile_stampsOk:
  assumes "\<forall>n. validTime (clock e n)" "reconcile e io c = (Inr st, g)"
  shows "stampsOk (allConversationsMap st)"
proof -
  have tabs: "stampsOk (allConversationsMap st1)" if "ingestChatTabs e chat initialState = Inr st1" for chat st1
    using that fold_stampsOk [of "processTab e" initialState, OF processTab_stampsOk [OF assms(1)]]
    by (auto simp: ingestChatTabs_def initialState_def stampsOk_def split: option.splits blob.splits)
  have comps: "stampsOk (allConversationsMap st2)"
    if "ingestComposers e io metas st1 = Inr st2" "stampsOk (allConversationsMap st1)" for metas st1 st2
    using that fold_stampsOk [of "processComposer e" st1, OF processComposer_stampsOk [OF assms(1)]]
    by (auto simp: ingestComposers_def split: if_splits sum.splits option.splits)
  have scan: "stampsOk (allConversationsMap st3)"
    if "scanGlobalBubbles e io metas st2 = Inr st3" "stampsOk (allConversationsMap st2)" for metas st2 st3
    using that fold_stampsOk [of "processGlobalBubble e metas" st2, OF processGlobalBubble_stampsOk [OF assms(1)]]
    by (auto simp: scanGlobalBubbles_def split: sum.splits)
  have glob: "stampsOk (allConversationsMap st3)"
    if "ingestGlobal e io v st1 = Inr st3" "stampsOk (allConversationsMap st1)" for v st1 st3
  proof (cases v)
    case (Parsed md)
    let ?s = "st1\<lparr>workspaceComposerIds := workspaceComposerIds st1 \<union> set (map metaComposerId (allComposers md))\<rparr>"
    from that(1) Parsed obtain st2 where
      a: "ingestComposers e io (allComposers md) ?s = Inr st2"
      and b: "scanGlobalBubbles e io (allComposers md) st2 = Inr st3"
      by (auto simp: ingestGlobal_def split: sum.splits)
    have "stampsOk (allConversationsMap ?s)" using that(2) by simp
    from comps [OF a this] have "stampsOk (allConversationsMap st2)" .
    from scan [OF b this] show ?thesis .
  qed (use that in \<open>simp_all add: ingestGlobal_def\<close>)
  show ?thesis using assms(2) tabs glob
    by (auto simp: reconcile_def afterQueries_def split: sum.splits if_splits)
qed

lemma consolidate_stamps:
  assumes "stampsOk (allConversationsMap st)" "c \<in> set (consolidate e st)"
  shows "isoInstant (respCreatedAt c) \<and> isoInstant (respLastUpdatedAt c)"
proof -
  from consolidate_elem [OF assms(2)] obtain tc where
    tc: "tc \<in> snd ` set (allConversationsMap st)" "toResponse st tc = Some c" by blast
  from toResponse_Some [OF tc(2)] have "respCreatedAt c = convCreatedAt tc" "respLastUpdatedAt c = convLastUpdatedAt tc"
    by blast+
  then show ?thesis using assms(1) tc(1) by (auto simp: stampsOk_def)
qed

lemma routes_stamps:
  assumes "\<forall>n. validTime (clock e n)"
  shows "fetchConversationsForWorkspace e io = Inr cs \<Longrightarrow> c \<in> set cs
           \<Longrightarrow> isoInstant (respCreatedAt c) \<and> isoInstant (respLastUpdatedAt c)"
    and "GET e io = Inr (Conversations cs) \<Longrightarrow> c \<in> set cs
           \<Longrightarrow> isoInstant (respCreatedAt c) \<and> isoInstant (respLastUpdatedAt c)"
proof -
  assume a: "fetchConversationsForWorkspace e io = Inr cs" "c \<in> set cs"
  then obtain st g where "reconcile e io (globalExists io \<and> globalOpen io = None) = (Inr st, g)"
      "cs = consolidate e st"
    by (auto simp: fetchConversationsForWorkspace_def finallyClose_def
        split: if_splits option.splits prod.splits sum.splits)
  then show "isoInstant (respCreatedAt c) \<and> isoInstant (respLastUpdatedAt c)"
    using reconcile_stampsOk [OF assms] consolidate_stamps a(2) by blast
next
  assume a: "GET e io = Inr (Conversations cs)" "c \<in> set cs"
  then obtain st g where "reconcile e io (globalOpen io = None) = (Inr st, g)"
      "cs = consolidate e st"
    by (auto simp: GET_def finallyClose_def
        split: if_splits option.splits prod.splits sum.splits)
  then show "isoInstant (respCreatedAt c) \<and> isoInstant (respLastUpdatedAt c)"
    using reconcile_stampsOk [OF assms] consolidate_stamps a(2) by blast
qed

section \<open>Failures in the export route\<close>

lemma fetch_no_db:
  "\<not> dbExists io \<or> dbOpen io \<noteq> None \<Longrightarrow> fetchConversationsForWorkspace e io = Inr []"
  by (auto simp: fetchConversationsForWorkspace_def)

lemma fetch_workspace_query_throws:
  assumes "dbClose io = None" "chatGet io = Inl ex \<or> composerGet io = Inl ex"
  shows "fetchConversationsForWorkspace e io = Inr []"
  using assms
  by (auto simp: fetchConversationsForWorkspace_def reconcile_def finallyClose_def
      split: option.splits sum.splits)

lemma ingestGlobal_throws:
  assumes "globalRawBubbles io = Inl ex
           \<or> (allComposers md \<noteq> []
               \<and> composersBody io (map (\<lambda>it. ''composerData:'' @ metaComposerId it) (allComposers md)) = Inl ex)"
  shows "\<exists>ex'. ingestGlobal e io (Parsed md) st = Inl ex'"
  using assms
  by (auto simp: ingestGlobal_def ingestComposers_def scanGlobalBubbles_def split: sum.splits option.splits)

lemma fetch_global_query_throws:
  assumes "dbClose io = None" "globalClose io = None"
    and "composerGet io = Inr (Some (Parsed md))" "globalExists io" "globalOpen io = None"
    and "globalRawBubbles io = Inl ex
           \<or> (allComposers md \<noteq> []
               \<and> composersBody io (map (\<lambda>it. ''composerData:'' @ metaComposerId it) (allComposers md)) = Inl ex)"
  shows "fetchConversationsForWorkspace e io = Inr []"
proof (cases "dbExists io \<and> dbOpen io = None")
  case False
  then show ?thesis using fetch_no_db [of io e] by blast
next
  case True
  show ?thesis
  proof (cases "chatGet io")
    case (Inl x)
    then show ?thesis using fetch_workspace_query_throws [OF assms(1)] by blast
  next
    case (Inr chat)
    show ?thesis
    proof (cases "ingestChatTabs e chat initialState")
      case (Inl x)
      then show ?thesis using True Inr assms(1,3)
        by (simp add: fetchConversationsForWorkspace_def reconcile_def afterQueries_def finallyClose_def)
    next
      case st: (Inr st1)
      from ingestGlobal_throws [OF assms(6), of e st1] obtain ex' where
        "ingestGlobal e io (Parsed md) st1 = Inl ex'" by blast
      then show ?thesis using True Inr st assms(1-5)
        by (simp add: fetchConversationsForWorkspace_def reconcile_def afterQueries_def finallyClose_def
            hasValue_def)
    qed
  qed
qed

lemma fetch_global_open_throws:
  assumes "dbExists io" "dbOpen io = None" "dbClose io = None"
    and "chatGet io = Inr chat" "composerGet io = Inr cmr" "globalOpen io \<noteq> None"
    and "ingestChatTabs e chat initialState = Inr st1"
  shows "fetchConversationsForWorkspace e io = Inr (consolidate e st1)"
  using assms
  by (auto simp: fetchConversationsForWorkspace_def reconcile_def afterQueries_def finallyClose_def)

lemma fetch_exception:
  assumes "fetchConversationsForWorkspace e io = Inl ex"
  shows "dbClose io = Some ex \<or> globalClose io = Some ex"
  using assms
  by (auto simp: fetchConversationsForWorkspace_def finallyClose_def
      split: if_splits option.splits prod.splits sum.splits)

section \<open>Claims about the global bubble scan\<close>

text \<open>
  Claim C1 (workspace isolation): a record of the global bubble store whose key carries a
  composer id outside the workspace-membership set contributes nothing. The scan leaves the
  state as it is at such a record, and both routes answer exactly as they do on the store
  without the record: no message of it appears and no conversation is created for it.
\<close>

theorem workspace_isolation:
  assumes "nthOpt (splitOn CHR '':'' key) 1 = Some cid"
  shows "(cid \<notin> workspaceComposerIds st \<longrightarrow> processGlobalBubble e metas st (key, v) = st)
    \<and> (globalRawBubbles io = Inr (xs @ (key, v) # ys)
        \<and> (\<forall>md. composerGet io = Inr (Some (Parsed md)) \<longrightarrow> cid \<notin> set (map metaComposerId (allComposers md)))
       \<longrightarrow> fetchConversationsForWorkspace e io
             = fetchConversationsForWorkspace e (io\<lparr>globalRawBubbles := Inr (xs @ ys)\<rparr>)
           \<and> GET e io = GET e (io\<lparr>globalRawBubbles := Inr (xs @ ys)\<rparr>))"
proof -
  have step: "cid \<notin> workspaceComposerIds st' \<Longrightarrow> processGlobalBubble e ms st' (key, v) = st'" for st' ms
    using assms by (rule processGlobalBubble_foreign)
  have "reconcile e io c = reconcile e (io\<lparr>globalRawBubbles := Inr (xs @ ys)\<rparr>) c"
    if rows: "globalRawBubbles io = Inr (xs @ (key, v) # ys)"
      and foreign: "\<forall>md. composerGet io = Inr (Some (Parsed md)) \<longrightarrow> cid \<notin> set (map metaComposerId (allComposers md))"
    for c
  proof (rule reconcile_drop [OF rows])
    fix md and st' :: rstate
    assume "composerGet io = Inr (Some (Parsed md))"
      and "workspaceComposerIds st' = set (map metaComposerId (allComposers md))"
    then have "cid \<notin> workspaceComposerIds st'" using foreign by simp
    then show "processGlobalBubble e (allComposers md) st' (key, v) = st'" by (rule step)
  qed
  then show ?thesis using step routes_drop [of e io "Inr (xs @ ys)"] by blast
qed

theorem workspace_isolation_witness:
  "nthOpt (splitOn CHR '':'' ''bubbleId:c2:b3'') 1 = Some ''c2''
   \<and> ''c2'' \<notin> workspaceComposerIds knownState
   \<and> processGlobalBubble sampleEnv [sampleMeta] knownState (''bubbleId:c2:b3'', Some userBubble) = knownState
   \<and> fetchConversationsForWorkspace sampleEnv sampleStore
       = fetchConversationsForWorkspace sampleEnv (sampleStore\<lparr>globalRawBubbles := Inr (ownRows @ [])\<rparr>)
   \<and> fetchConversationsForWorkspace sampleEnv sampleStore = Inr sampleResult"
proof -
  have k: "nthOpt (splitOn CHR '':'' ''bubbleId:c2:b3'') 1 = Some ''c2''" by (simp add: nthOpt_def)
  have m: "''c2'' \<notin> workspaceComposerIds knownState" by (simp add: knownState_def initialState_def)
  have r: "globalRawBubbles sampleStore = Inr (ownRows @ (''bubbleId:c2:b3'', Some userBubble) # [])"
    by (simp add: sampleStore_def)
  have f: "\<forall>md. composerGet sampleStore = Inr (Some (Parsed md)) \<longrightarrow> ''c2'' \<notin> set (map metaComposerId (allComposers md))"
    by (auto simp: sampleStore_def sampleMeta_def)
  show ?thesis
    using workspace_isolation [OF k, of knownState sampleEnv "[sampleMeta]" "Some userBubble" sampleStore ownRows "[]"]
      k m r f fetch_sample by blast
qed

text \<open>
  Claim C10 (frame property of the scan): an admitted record (composer id in the membership
  set) whose text content is empty or white space only leaves the reconciliation state
  unchanged; and whenever a record changes the state at all (stages a message, creates a
  conversation, refreshes a timestamp), its content is not blank.
\<close>

theorem blank_global_bubble_frame:
  "(nthOpt (splitOn CHR '':'' key) 1 = Some cid \<and> cid \<in> workspaceComposerIds st
      \<and> (\<forall>c\<in>set (contentOf (gbText bd) (gbRichText bd)). isJsSpace c)
     \<longrightarrow> processGlobalBubble e metas st (key, Some bd) = st)
   \<and> (processGlobalBubble e metas st row \<noteq> st
     \<longrightarrow> (\<exists>bd. snd row = Some bd \<and> trim (contentOf (gbText bd) (gbRichText bd)) \<noteq> []))"
proof -
  have "processGlobalBubble e metas st row = st"
    if "\<forall>bd. snd row = Some bd \<longrightarrow> trim (contentOf (gbText bd) (gbRichText bd)) = []"
  proof (cases "snd row")
    case None
    then show ?thesis by (simp add: processGlobalBubble_def)
  next
    case (Some bd)
    then have "trim (contentOf (gbText bd) (gbRichText bd)) = []" using that by simp
    from processGlobalBubble_blank [OF this, of e metas st "fst row"] show ?thesis
      using Some by (metis prod.collapse)
  qed
  then show ?thesis
    using processGlobalBubble_blank [of bd e metas st key] by (auto simp: trim_empty_iff)
qed

theorem blank_global_bubble_frame_witness:
  "nthOpt (splitOn CHR '':'' ''bubbleId:c1:b9'') 1 = Some ''c1''
   \<and> ''c1'' \<in> workspaceComposerIds knownState
   \<and> list_all isJsSpace (contentOf (gbText blankBubble) (gbRichText blankBubble))
   \<and> processGlobalBubble sampleEnv [sampleMeta] knownState (''bubbleId:c1:b9'', Some blankBubble) = knownState"
proof -
  have k: "nthOpt (splitOn CHR '':'' ''bubbleId:c1:b9'') 1 = Some ''c1''" by (simp add: nthOpt_def)
  have m: "''c1'' \<in> workspaceComposerIds knownState" by (simp add: knownState_def initialState_def)
  have b: "\<forall>c\<in>set (contentOf (gbText blankBubble) (gbRichText blankBubble)). isJsSpace c"
    by (simp add: blankBubble_def contentOf_def orS_def truthyS_def orEmpty_def isJsSpace_def)
  show ?thesis
    unfolding list_all_iff
    using blank_global_bubble_frame [of "''bubbleId:c1:b9''" "''c1''" knownState blankBubble sampleEnv "[sampleMeta]"]
      k m b by blast
qed

section \<open>Claims about deduplication, ordering and empty content\<close>

text \<open>
  Claim C5 (deduplication invariant): in every conversation of the output of either route no
  two messages agree on both role and content; the deduplication of the code is the
  first-occurrence deduplication of the specification: every kept message is the first staged
  message with its role and content, every staged message has a kept message with its role
  and content, and the kept messages stand in their staging order.
\<close>

theorem dedup_invariant:
  "(\<forall>c\<in>set (consolidate e st). distinct (map (\<lambda>b. (role b, content b)) (respMessages c)))
   \<and> (fetchConversationsForWorkspace e io = Inr cs
        \<longrightarrow> (\<forall>c\<in>set cs. distinct (map (\<lambda>b. (role b, content b)) (respMessages c))))
   \<and> (GET e io = Inr (Conversations cs)
        \<longrightarrow> (\<forall>c\<in>set cs. distinct (map (\<lambda>b. (role b, content b)) (respMessages c))))
   \<and> uniqueBubbles staged = firstOccurrences [] staged
   \<and> (\<forall>b\<in>set (uniqueBubbles staged). find (sameBubble b) staged = Some b)
   \<and> (\<forall>x\<in>set staged. \<exists>b\<in>set (uniqueBubbles staged). sameBubble x b)
   \<and> subseq (uniqueBubbles staged) staged"
proof -
  have a: "\<forall>c\<in>set (consolidate e' st'). distinct (map (\<lambda>b. (role b, content b)) (respMessages c))" for e' st'
  proof
    fix c assume "c \<in> set (consolidate e' st')"
    from consolidate_elem [OF this] obtain tc where "toResponse st' tc = Some c" by blast
    from toResponse_Some [OF this] show "distinct (map (\<lambda>b. (role b, content b)) (respMessages c))"
      by (simp add: finalMessages_distinct)
  qed
  have b: "\<forall>c\<in>set cs. distinct (map (\<lambda>b. (role b, content b)) (respMessages c))"
    if "fetchConversationsForWorkspace e io = Inr cs"
    using fetch_result [OF that] a by auto
  have c: "\<forall>c\<in>set cs. distinct (map (\<lambda>b. (role b, content b)) (respMessages c))"
    if "GET e io = Inr (Conversations cs)"
    using GET_result [OF that] a by auto
  have d: "\<forall>b\<in>set (uniqueBubbles staged). find (sameBubble b) staged = Some b"
    by (simp add: uniqueBubbles_firstOccurrences firstOccurrences_find)
  have f: "\<forall>x\<in>set staged. \<exists>b\<in>set (uniqueBubbles staged). sameBubble x b"
    using firstOccurrences_covers [of _ staged "[]"] by (simp add: uniqueBubbles_firstOccurrences)
  have g: "subseq (uniqueBubbles staged) staged"
    by (simp add: uniqueBubbles_firstOccurrences firstOccurrences_subseq)
  show ?thesis
    using a b c d f g uniqueBubbles_firstOccurrences [of staged] by blast
qed

theorem dedup_invariant_witness:
  "fetchConversationsForWorkspace sampleEnv sampleStore = Inr sampleResult
   \<and> list_all (\<lambda>c. distinct (map (\<lambda>b. (role b, content b)) (respMessages c))) sampleResult
   \<and> uniqueBubbles [msgA, msgB, msgA2, msgC, msgB] = [msgA, msgB, msgC]
   \<and> list_all (\<lambda>b. find (sameBubble b) [msgA, msgB, msgA2, msgC, msgB] = Some b)
        (uniqueBubbles [msgA, msgB, msgA2, msgC, msgB])
   \<and> list_all (\<lambda>x. \<exists>b\<in>set (uniqueBubbles [msgA, msgB, msgA2, msgC, msgB]). sameBubble x b)
        [msgA, msgB, msgA2, msgC, msgB]"
proof -
  have u: "uniqueBubbles [msgA, msgB, msgA2, msgC, msgB] = [msgA, msgB, msgC]"
    by (simp add: uniqueBubbles_def sameBubble_def msgA_def msgA2_def msgB_def msgC_def createBubble_def)
  show ?thesis
    unfolding list_all_iff
    using dedup_invariant [where e = sampleEnv and st = hintState and io = sampleStore
        and cs = sampleResult and staged = "[msgA, msgB, msgA2, msgC, msgB]"]
      fetch_sample u by blast
qed

text \<open>
  Claim C7 (empty-content drop): a raw record of any of the three sources whose resolved
  content is empty or white space only gives no message (the loop stages nothing for it);
  a conversation whose message list is empty after deduplication is not pushed, and every
  conversation in the output of either route has at least one message.
\<close>

theorem empty_content_drop:
  "((\<forall>c\<in>set (contentOf (rawContent b) (rawText b)). isJsSpace c) \<longrightarrow> chatResultBubble b = None)
   \<and> ((\<forall>c\<in>set (contentOf (msgContent m) (msgText m)). isJsSpace c) \<longrightarrow> composerMessageBubble m = None)
   \<and> ((\<forall>c\<in>set (contentOf (gbText bd) (gbRichText bd)). isJsSpace c) \<longrightarrow> globalBubble bd k = None)
   \<and> (f x = None \<longrightarrow> stage f acc [x] = acc)
   \<and> (finalMessages st (convId tc) = [] \<longrightarrow> toResponse st tc = None)
   \<and> (\<forall>c\<in>set (consolidate e st). respMessages c \<noteq> [])
   \<and> (fetchConversationsForWorkspace e io = Inr cs \<longrightarrow> (\<forall>c\<in>set cs. respMessages c \<noteq> []))
   \<and> (GET e io = Inr (Conversations cs) \<longrightarrow> (\<forall>c\<in>set cs. respMessages c \<noteq> []))"
proof -
  have a: "\<forall>c\<in>set (consolidate e' st'). respMessages c \<noteq> []" for e' st'
  proof
    fix c assume "c \<in> set (consolidate e' st')"
    from consolidate_elem [OF this] obtain tc where "toResponse st' tc = Some c" by blast
    from toResponse_Some [OF this] show "respMessages c \<noteq> []" by blast
  qed
  have b: "\<forall>c\<in>set cs. respMessages c \<noteq> []" if "fetchConversationsForWorkspace e io = Inr cs"
    using fetch_result [OF that] a by auto
  have c: "\<forall>c\<in>set cs. respMessages c \<noteq> []" if "GET e io = Inr (Conversations cs)"
    using GET_result [OF that] a by auto
  have n: "(\<forall>c\<in>set (contentOf (rawContent b) (rawText b)). isJsSpace c) \<longrightarrow> chatResultBubble b = None"
    "(\<forall>c\<in>set (contentOf (msgContent m) (msgText m)). isJsSpace c) \<longrightarrow> composerMessageBubble m = None"
    "(\<forall>c\<in>set (contentOf (gbText bd) (gbRichText bd)). isJsSpace c) \<longrightarrow> globalBubble bd k = None"
    by (simp_all add: chatResultBubble_def composerMessageBubble_def globalBubble_def trim_empty_iff)
  have s: "f x = None \<longrightarrow> stage f acc [x] = acc" by simp
  have t: "finalMessages st (convId tc) = [] \<longrightarrow> toResponse st tc = None" by (simp add: toResponse_def)
  show ?thesis using a b c n s t by blast
qed

theorem empty_content_drop_witness:
  "list_all isJsSpace (contentOf (rawContent blankRaw) (rawText blankRaw))
   \<and> chatResultBubble blankRaw = None
   \<and> list_all isJsSpace (contentOf (msgContent blankMsg) (msgText blankMsg))
   \<and> composerMessageBubble blankMsg = None
   \<and> list_all isJsSpace (contentOf (gbText blankBubble) (gbRichText blankBubble))
   \<and> globalBubble blankBubble None = None
   \<and> stage chatResultBubble [msgA] [blankRaw] = [msgA]
   \<and> finalMessages hintState (convId (convX\<lparr>convId := ''y''\<rparr>)) = []
   \<and> toResponse hintState (convX\<lparr>convId := ''y''\<rparr>) = None
   \<and> fetchConversationsForWorkspace sampleEnv sampleStore = Inr sampleResult
   \<and> list_all (\<lambda>c. respMessages c \<noteq> []) sampleResult"
proof -
  have a: "\<forall>c\<in>set (contentOf (rawContent blankRaw) (rawText blankRaw)). isJsSpace c"
    by (simp add: blankRaw_def js_eval)
  have b: "\<forall>c\<in>set (contentOf (msgContent blankMsg) (msgText blankMsg)). isJsSpace c"
    by (simp add: blankMsg_def js_eval)
  have c: "\<forall>c\<in>set (contentOf (gbText blankBubble) (gbRichText blankBubble)). isJsSpace c"
    by (simp add: blankBubble_def js_eval)
  have d: "finalMessages hintState (convId (convX\<lparr>convId := ''y''\<rparr>)) = []"
    by (simp add: finalMessages_def hintState_def initialState_def getOrEmpty_def uniqueBubbles_def
        orderBubbles_def)
  show ?thesis
    unfolding list_all_iff
    using empty_content_drop [where b = blankRaw and m = blankMsg and bd = blankBubble and k = None
        and f = chatResultBubble and x = blankRaw and acc = "[msgA]" and st = hintState
        and tc = "convX\<lparr>convId := ''y''\<rparr>" and e = sampleEnv and io = sampleStore
        and cs = sampleResult]
      a b c d fetch_sample by blast
qed

text \<open>
  Claim C4 (ordering with hints): for a conversation with a non-empty order hint map the
  final messages are the deduplicated staged messages, rearranged so that no message without
  a hint stands before a message with one, hinted messages stand by increasing hint, and the
  messages without a hint keep their relative order. The hint of a message is what the map
  holds for its id (for the empty string when it has no id). With A (no hint), B (hint 0),
  C (hint 1) staged as A, B, C the final order is B, C, A.
\<close>

theorem ordering_with_hints:
  assumes "map_of (headerOrderMap st) cid = Some hm" and "hm \<noteq> []"
  shows "mset (finalMessages st cid) = mset (uniqueBubbles (getOrEmpty (allBubblesMap st) cid))
    \<and> sorted_wrt (\<lambda>a b. (headerIndex hm a = None \<longrightarrow> headerIndex hm b = None)
                    \<and> (\<forall>i j. headerIndex hm a = Some i \<and> headerIndex hm b = Some j \<longrightarrow> i \<le> j))
         (finalMessages st cid)
    \<and> filter (\<lambda>b. headerIndex hm b = None) (finalMessages st cid)
        = filter (\<lambda>b. headerIndex hm b = None) (uniqueBubbles (getOrEmpty (allBubblesMap st) cid))"
  using assms(1) orderBubbles_sorted [OF assms(2)] orderBubbles_stable [OF assms(2), of None]
  by (simp add: finalMessages_def)

theorem ordering_with_hints_witness:
  "map_of (headerOrderMap hintState) ''x'' = Some sampleHeaders \<and> sampleHeaders \<noteq> []
   \<and> headerIndex sampleHeaders msgA = None \<and> headerIndex sampleHeaders msgB = Some 0
   \<and> headerIndex sampleHeaders msgC = Some 1
   \<and> getOrEmpty (allBubblesMap hintState) ''x'' = [msgA, msgB, msgC]
   \<and> finalMessages hintState ''x'' = [msgB, msgC, msgA]
   \<and> sorted_wrt (\<lambda>a b. (headerIndex sampleHeaders a = None \<longrightarrow> headerIndex sampleHeaders b = None)
                    \<and> (\<forall>i j. headerIndex sampleHeaders a = Some i \<and> headerIndex sampleHeaders b = Some j \<longrightarrow> i \<le> j))
         (finalMessages hintState ''x'')"
proof -
  have h: "map_of (headerOrderMap hintState) ''x'' = Some sampleHeaders"
    by (simp add: hintState_def initialState_def)
  have n: "sampleHeaders \<noteq> []" by (simp add: sampleHeaders_def)
  have i: "headerIndex sampleHeaders msgA = None" "headerIndex sampleHeaders msgB = Some 0"
    "headerIndex sampleHeaders msgC = Some 1"
    by (simp_all add: headerIndex_def sampleHeaders_def msgA_def msgB_def msgC_def createBubble_def orEmpty_def)
  have g: "getOrEmpty (allBubblesMap hintState) ''x'' = [msgA, msgB, msgC]"
    by (simp add: hintState_def initialState_def getOrEmpty_def)
  have u: "uniqueBubbles [msgA, msgB, msgC] = [msgA, msgB, msgC]"
    by (simp add: uniqueBubbles_def sameBubble_def msgA_def msgB_def msgC_def createBubble_def)
  have f: "finalMessages hintState ''x'' = [msgB, msgC, msgA]"
    unfolding finalMessages_def g u h using n
    by (simp add: orderBubbles_def jsSort_def headerCompare_def i)
  show ?thesis
    using ordering_with_hints [OF h n] h n i g f by blast
qed

section \<open>Claim about the merge of a composer into a chat-tab conversation\<close>

text \<open>
  Claim C6 (merge precedence): when pass 2 meets a composer whose id is the id of a
  conversation that exists already (created from a legacy chat tab), the conversation keeps
  its place and its id, and each metadata field is overwritten only when the composer
  carries data for it, where a field is present when it is truthy in the sense of
  \<^verbatim>\<open>||\<close> (a non-empty string; a timestamp that is not 0, empty or absent): the title
  becomes the composer name, else stays; the summary becomes the composer summary, else
  stays; \<^verbatim>\<open>lastUpdatedAt\<close> becomes the normalized composer \<^verbatim>\<open>lastUpdatedAt\<close>, else the
  normalized composer \<^verbatim>\<open>createdAt\<close>, else stays; \<^verbatim>\<open>createdAt\<close> becomes the normalized composer
  \<^verbatim>\<open>createdAt\<close>, else stays. The timestamps of the existing conversation are well-formed
  instants, as those of every conversation of a run are. With different titles in the two
  sources the composer title wins.
\<close>

theorem merge_precedence:
  assumes "map_of (allConversationsMap st) (composerId c) = Some old"
    and "isoInstant (convLastUpdatedAt old)" and "isoInstant (convCreatedAt old)"
  shows "map_of (allConversationsMap (processComposer e st c)) (composerId c)
           = Some (mergeConversation e (clockReads st) c old)
    \<and> map fst (allConversationsMap (processComposer e st c)) = map fst (allConversationsMap st)
    \<and> convId (mergeConversation e (clockReads st) c old) = convId old
    \<and> (\<forall>n. name c = Some n \<and> n \<noteq> [] \<longrightarrow> title (mergeConversation e (clockReads st) c old) = n)
    \<and> (\<not> truthyS (name c) \<longrightarrow> title (mergeConversation e (clockReads st) c old) = title old)
    \<and> (\<forall>s. latestConversationSummary c = Some s \<and> s \<noteq> []
          \<longrightarrow> summary (mergeConversation e (clockReads st) c old) = Some s)
    \<and> (\<not> truthyS (latestConversationSummary c)
          \<longrightarrow> summary (mergeConversation e (clockReads st) c old) = summary old)
    \<and> (truthy (lastUpdatedAt c)
          \<longrightarrow> convLastUpdatedAt (mergeConversation e (clockReads st) c old)
               = safeParseTimestamp (clock e (clockReads st)) (parseImpl e) (lastUpdatedAt c))
    \<and> (\<not> truthy (lastUpdatedAt c) \<and> truthy (createdAt c)
          \<longrightarrow> convLastUpdatedAt (mergeConversation e (clockReads st) c old)
               = safeParseTimestamp (clock e (clockReads st)) (parseImpl e) (createdAt c))
    \<and> (\<not> truthy (lastUpdatedAt c) \<and> \<not> truthy (createdAt c)
          \<longrightarrow> convLastUpdatedAt (mergeConversation e (clockReads st) c old) = convLastUpdatedAt old)
    \<and> (truthy (createdAt c)
          \<longrightarrow> convCreatedAt (mergeConversation e (clockReads st) c old)
               = safeParseTimestamp (clock e (clockReads st + 1)) (parseImpl e) (createdAt c))
    \<and> (\<not> truthy (createdAt c)
          \<longrightarrow> convCreatedAt (mergeConversation e (clockReads st) c old) = convCreatedAt old)"
proof -
  note p = processComposer_existing [OF assms(1), of e]
  have t: "\<forall>n. name c = Some n \<and> n \<noteq> [] \<longrightarrow> title (mergeConversation e (clockReads st) c old) = n"
    "\<not> truthyS (name c) \<longrightarrow> title (mergeConversation e (clockReads st) c old) = title old"
    by (auto simp: mergeConversation_def titleOr_def truthyS_def split: option.splits)
  have s: "\<forall>s. latestConversationSummary c = Some s \<and> s \<noteq> []
          \<longrightarrow> summary (mergeConversation e (clockReads st) c old) = Some s"
    "\<not> truthyS (latestConversationSummary c)
          \<longrightarrow> summary (mergeConversation e (clockReads st) c old) = summary old"
    by (auto simp: mergeConversation_def orS_def truthyS_def)
  have l: "truthy (lastUpdatedAt c)
          \<longrightarrow> convLastUpdatedAt (mergeConversation e (clockReads st) c old)
               = safeParseTimestamp (clock e (clockReads st)) (parseImpl e) (lastUpdatedAt c)"
    "\<not> truthy (lastUpdatedAt c) \<and> truthy (createdAt c)
          \<longrightarrow> convLastUpdatedAt (mergeConversation e (clockReads st) c old)
               = safeParseTimestamp (clock e (clockReads st)) (parseImpl e) (createdAt c)"
    "\<not> truthy (lastUpdatedAt c) \<and> \<not> truthy (createdAt c)
          \<longrightarrow> convLastUpdatedAt (mergeConversation e (clockReads st) c old) = convLastUpdatedAt old"
    using safeParseTimestamp_of_iso [OF assms(2)]
    by (simp_all add: mergeConversation_def jsOr_def stampAt_def)
  have k: "truthy (createdAt c)
          \<longrightarrow> convCreatedAt (mergeConversation e (clockReads st) c old)
               = safeParseTimestamp (clock e (clockReads st + 1)) (parseImpl e) (createdAt c)"
    "\<not> truthy (createdAt c)
          \<longrightarrow> convCreatedAt (mergeConversation e (clockReads st) c old) = convCreatedAt old"
    using safeParseTimestamp_of_iso [OF assms(3)]
    by (simp_all add: mergeConversation_def jsOr_def stampAt_def)
  have i: "convId (mergeConversation e (clockReads st) c old) = convId old"
    by (simp add: mergeConversation_def)
  show ?thesis using p t s l k i by blast
qed

theorem merge_precedence_witness:
  "map_of (allConversationsMap (processTab sampleEnv initialState sampleTab)) (composerId sampleComposer)
     = Some (tabConversation sampleEnv 0 sampleTab)
   \<and> isoInstant (convLastUpdatedAt (tabConversation sampleEnv 0 sampleTab))
   \<and> isoInstant (convCreatedAt (tabConversation sampleEnv 0 sampleTab))
   \<and> title (tabConversation sampleEnv 0 sampleTab) = ''Hello''
   \<and> name sampleComposer = Some ''Composer title''
   \<and> title (mergeConversation sampleEnv (clockReads (processTab sampleEnv initialState sampleTab))
              sampleComposer (tabConversation sampleEnv 0 sampleTab)) = ''Composer title''
   \<and> \<not> truthy (lastUpdatedAt sampleComposer) \<and> \<not> truthy (createdAt sampleComposer)
   \<and> convLastUpdatedAt (mergeConversation sampleEnv (clockReads (processTab sampleEnv initialState sampleTab))
              sampleComposer (tabConversation sampleEnv 0 sampleTab))
        = convLastUpdatedAt (tabConversation sampleEnv 0 sampleTab)
   \<and> fetchConversationsForWorkspace sampleEnv mergeStore = Inr mergedResult
   \<and> map respName mergedResult = [''Composer title'']"
proof -
  let ?st = "processTab sampleEnv initialState sampleTab"
  let ?old = "tabConversation sampleEnv 0 sampleTab"
  have m: "map_of (allConversationsMap ?st) (composerId sampleComposer) = Some ?old"
    by (simp add: processTab_def initialState_def sampleTab_def sampleComposer_def)
  have i: "isoInstant (convLastUpdatedAt ?old)" "isoInstant (convCreatedAt ?old)"
    by (simp_all add: tabConversation_def stampAt_def safeParseTimestamp_iso validTime_sample)
  have t: "title ?old = ''Hello''"
    by (simp add: tabConversation_def sampleTab_def titleOr_def firstLine_def)
  have n: "name sampleComposer = Some ''Composer title''"
    "\<not> truthy (lastUpdatedAt sampleComposer)" "\<not> truthy (createdAt sampleComposer)"
    by (simp_all add: sampleComposer_def truthy_def)
  have r: "map respName mergedResult = [''Composer title'']" by (simp add: mergedResult_def)
  show ?thesis
    using merge_precedence [OF m i, of sampleEnv] m i t n r fetch_merge by blast
qed

section \<open>Claim about the totality of the timestamp normalizer\<close>

text \<open>
  Claim C8 (timestamp normalizer totality): whenever the clock reads valid time values, the
  normalizer returns a well-formed ISO-8601 instant string for every input; an exception
  raised in its \<^verbatim>\<open>try\<close> block (the RangeError of an out-of-range number or an invalid Date)
  is caught and the result is the current time. Hence \<^verbatim>\<open>createdAt\<close> and \<^verbatim>\<open>lastUpdatedAt\<close>
  of every conversation that either route returns are well-formed instants.
\<close>

theorem timestamps_well_formed:
  assumes "\<forall>n. validTime (clock e n)"
  shows "isoInstant (safeParseTimestamp (clock e n) lp v)
    \<and> (\<forall>ex. safeParseTimestampTry (clock e n) lp v = Inl ex
          \<longrightarrow> safeParseTimestamp (clock e n) lp v = formatISO (clock e n))
    \<and> (fetchConversationsForWorkspace e io = Inr cs
          \<longrightarrow> (\<forall>c\<in>set cs. isoInstant (respCreatedAt c) \<and> isoInstant (respLastUpdatedAt c)))
    \<and> (GET e io = Inr (Conversations cs)
          \<longrightarrow> (\<forall>c\<in>set cs. isoInstant (respCreatedAt c) \<and> isoInstant (respLastUpdatedAt c)))"
proof -
  have "validTime (clock e n)" using assms by simp
  then have "isoInstant (safeParseTimestamp (clock e n) lp v)" by (rule safeParseTimestamp_iso)
  moreover have "\<forall>ex. safeParseTimestampTry (clock e n) lp v = Inl ex
          \<longrightarrow> safeParseTimestamp (clock e n) lp v = formatISO (clock e n)"
    by (simp add: safeParseTimestamp_def)
  ultimately show ?thesis using routes_stamps [OF assms] by blast
qed

theorem timestamps_well_formed_witness:
  "(\<forall>n. validTime (clock sampleEnv n))
   \<and> safeParseTimestampTry (clock sampleEnv 0) noLegacyParse (JNumber (Fin 100000000000000000000)) = Inl RangeError
   \<and> safeParseTimestamp (clock sampleEnv 0) noLegacyParse (JNumber (Fin 100000000000000000000))
       = ''2023-11-14T22:13:20.000Z''
   \<and> isoInstant (safeParseTimestamp (clock sampleEnv 0) noLegacyParse (JNumber (Fin 100000000000000000000)))
   \<and> fetchConversationsForWorkspace sampleEnv sampleStore = Inr sampleResult
   \<and> list_all (\<lambda>c. isoInstant (respCreatedAt c) \<and> isoInstant (respLastUpdatedAt c)) sampleResult"
proof -
  have v: "\<forall>n. validTime (clock sampleEnv n)" using validTime_sample by simp
  have t: "safeParseTimestampTry (clock sampleEnv 0) noLegacyParse (JNumber (Fin 100000000000000000000)) = Inl RangeError"
    by (simp add: safeParseTimestampTry_def numGreater_def timeClip_def toISOString_def)
  have "formatISO (clock sampleEnv 0) = ''2023-11-14T22:13:20.000Z''"
    by (simp add: sampleEnv_def iso_eval)
  then have s: "safeParseTimestamp (clock sampleEnv 0) noLegacyParse (JNumber (Fin 100000000000000000000))
       = ''2023-11-14T22:13:20.000Z''"
    unfolding safeParseTimestamp_def t by simp
  show ?thesis
    unfolding list_all_iff
    using timestamps_well_formed [OF v, of 0 noLegacyParse "JNumber (Fin 100000000000000000000)" sampleStore sampleResult]
      v t s fetch_sample by blast
qed

section \<open>Claim about failures of the storage layer\<close>

text \<open>
  Claim C3 (failure semantics), as stated: if opening the global database throws, the fetch
  of the workspace returns an empty list. The export route catches that exception where it
  opens the global database, goes on without it, and returns the conversations of the legacy
  chat tabs.
\<close>

theorem failure_semantics_counterexample:
  "globalOpen failStore = Some IOError
   \<and> fetchConversationsForWorkspace sampleEnv failStore = Inr tabResult
   \<and> tabResult \<noteq> []"
  using fetch_fail by (simp add: failStore_def tabResult_def)

text \<open>
  Claim C3, as amended: the fetch returns an empty list when the workspace database file is
  absent or cannot be opened, when a query on the workspace database throws, and when a query
  on the opened global database throws (the closing of the handles succeeding); when the
  global database cannot be opened the fetch returns what the legacy chat tabs alone give;
  the only exceptions that leave the fetch are those of closing a database handle.
\<close>

theorem failure_semantics:
  "(\<not> dbExists io \<or> dbOpen io \<noteq> None \<longrightarrow> fetchConversationsForWorkspace e io = Inr [])
   \<and> (dbClose io = None \<and> (chatGet io = Inl ex \<or> composerGet io = Inl ex)
        \<longrightarrow> fetchConversationsForWorkspace e io = Inr [])
   \<and> (dbClose io = None \<and> globalClose io = None
        \<and> composerGet io = Inr (Some (Parsed md)) \<and> globalExists io \<and> globalOpen io = None
        \<and> (globalRawBubbles io = Inl ex
             \<or> (allComposers md \<noteq> []
                 \<and> composersBody io (map (\<lambda>it. ''composerData:'' @ metaComposerId it) (allComposers md)) = Inl ex))
        \<longrightarrow> fetchConversationsForWorkspace e io = Inr [])
   \<and> (dbExists io \<and> dbOpen io = None \<and> dbClose io = None
        \<and> chatGet io = Inr chat \<and> composerGet io = Inr cmr \<and> globalOpen io \<noteq> None
        \<and> ingestChatTabs e chat initialState = Inr st1
        \<longrightarrow> fetchConversationsForWorkspace e io = Inr (consolidate e st1))
   \<and> (fetchConversationsForWorkspace e io = Inl ex \<longrightarrow> dbClose io = Some ex \<or> globalClose io = Some ex)"
  using fetch_no_db [of io e] fetch_workspace_query_throws [of io ex e]
    fetch_global_query_throws [of io md ex e] fetch_global_open_throws [of io chat cmr e st1]
    fetch_exception [of e io ex]
  by blast

theorem failure_semantics_witness:
  "\<not> dbExists missingStore
   \<and> fetchConversationsForWorkspace sampleEnv missingStore = Inr []
   \<and> dbClose queryFailStore = None \<and> chatGet queryFailStore = Inl IOError
   \<and> fetchConversationsForWorkspace sampleEnv queryFailStore = Inr []
   \<and> dbClose scanFailStore = None \<and> globalClose scanFailStore = None
   \<and> globalExists scanFailStore \<and> globalOpen scanFailStore = None
   \<and> globalRawBubbles scanFailStore = Inl IOError
   \<and> fetchConversationsForWorkspace sampleEnv scanFailStore = Inr []
   \<and> dbExists failStore \<and> dbOpen failStore = None \<and> dbClose failStore = None
   \<and> globalOpen failStore \<noteq> None
   \<and> fetchConversationsForWorkspace sampleEnv failStore
        = Inr (consolidate sampleEnv (processTab sampleEnv initialState sampleTab))
   \<and> fetchConversationsForWorkspace sampleEnv closeFailStore = Inl IOError
   \<and> dbClose closeFailStore = Some IOError"
proof -
  let ?md = "\<lparr>allComposers =
        [\<lparr>metaComposerId = ''t1'', metaName = None, metaCreatedAt = JUndefined, metaLastUpdatedAt = JUndefined\<rparr>]\<rparr>"
  let ?chat = "Some (Parsed \<lparr>tabs = Some [sampleTab]\<rparr>)"
  have a: "\<not> dbExists missingStore" by (simp add: missingStore_def mergeStore_def)
  have b: "dbClose queryFailStore = None" "chatGet queryFailStore = Inl IOError"
    by (simp_all add: queryFailStore_def mergeStore_def)
  have c: "dbClose scanFailStore = None" "globalClose scanFailStore = None"
    "composerGet scanFailStore = Inr (Some (Parsed ?md))"
    "globalExists scanFailStore" "globalOpen scanFailStore = None"
    "globalRawBubbles scanFailStore = Inl IOError"
    by (simp_all add: scanFailStore_def mergeStore_def)
  have d: "dbExists failStore" "dbOpen failStore = None" "dbClose failStore = None"
    "chatGet failStore = Inr ?chat" "composerGet failStore = Inr (Some (Parsed ?md))"
    "globalOpen failStore \<noteq> None"
    "ingestChatTabs sampleEnv ?chat initialState = Inr (processTab sampleEnv initialState sampleTab)"
    by (simp_all add: failStore_def mergeStore_def ingestChatTabs_def)
  have f: "fetchConversationsForWorkspace sampleEnv closeFailStore = Inl IOError"
    by (simp add: closeFailStore_def mergeStore_def fetchConversationsForWorkspace_def finallyClose_def
        split: prod.splits sum.splits)
  have g: "dbClose closeFailStore = Some IOError" by (simp add: closeFailStore_def)
  have r1: "fetchConversationsForWorkspace sampleEnv missingStore = Inr []"
    using failure_semantics [where io = missingStore and e = sampleEnv] a by blast
  have r2: "fetchConversationsForWorkspace sampleEnv queryFailStore = Inr []"
    using failure_semantics [where io = queryFailStore and e = sampleEnv and ex = IOError] b by blast
  have r3: "fetchConversationsForWorkspace sampleEnv scanFailStore = Inr []"
    using failure_semantics [where io = scanFailStore and e = sampleEnv and ex = IOError and md = ?md] c
    by blast
  have r4: "fetchConversationsForWorkspace sampleEnv failStore
        = Inr (consolidate sampleEnv (processTab sampleEnv initialState sampleTab))"
    using failure_semantics [where io = failStore and e = sampleEnv and chat = ?chat
        and cmr = "Some (Parsed ?md)" and ?st1.0 = "processTab sampleEnv initialState sampleTab"] d
    by blast
  have r5: "dbClose closeFailStore = Some IOError \<or> globalClose closeFailStore = Some IOError"
    using failure_semantics [where io = closeFailStore and e = sampleEnv and ex = IOError] f by blast
  show ?thesis using a b c d f g r1 r2 r3 r4 r5 by simp
qed

end
